theory Spec2Isabelle
  imports Main "HOL-Library.Multiset"
begin

section \<open>Common types\<close>

text \<open>
  Users, posts and chats are MongoDB documents identified by an ObjectId. The handlers
  only ever compare identifiers for equality (\<^verbatim>\<open>toString() === toString()\<close>,
  \<^verbatim>\<open>includes\<close> on a Mongoose array of ObjectIds, which compares by value), so an
  identifier is a natural number here. Dates are instants in milliseconds.
\<close>

type_synonym user_id = nat
type_synonym object_id = nat
type_synonym date = int

text \<open>
  A handler either answers with a status code and a message
  (\<^verbatim>\<open>res.status(c).json({ message })\<close>), or with status 400 and the array of the
  request validator's messages (\<^verbatim>\<open>res.status(400).json({ errors: errors.array() })\<close>).
\<close>

datatype http_error = HttpError nat string | ValidationErrors "string list"

abbreviation NotFound :: http_error where
  "NotFound \<equiv> HttpError 404 ''Post not found''"

abbreviation InvalidState :: http_error where
  "InvalidState \<equiv> HttpError 400 ''This trip is no longer active''"

abbreviation SelfJoin :: http_error where
  "SelfJoin \<equiv> HttpError 400 ''You cannot join your own trip''"

abbreviation AlreadyMember :: http_error where
  "AlreadyMember \<equiv> HttpError 400 ''You have already joined this trip''"

abbreviation Full :: http_error where
  "Full \<equiv> HttpError 400 ''This trip is already full''"

abbreviation CreatorCannotLeave :: http_error where
  "CreatorCannotLeave \<equiv> HttpError 400 ''Trip creator cannot leave the trip''"

abbreviation NotMember :: http_error where
  "NotMember \<equiv> HttpError 400 ''You are not part of this trip''"

abbreviation ServerError :: http_error where
  "ServerError \<equiv> HttpError 500 ''Server error''"

abbreviation UserNotFound :: http_error where
  "UserNotFound \<equiv> HttpError 404 ''User not found''"

abbreviation ChatNotFound :: http_error where
  "ChatNotFound \<equiv> HttpError 404 ''Chat not found''"

abbreviation Forbidden :: http_error where
  "Forbidden \<equiv> HttpError 403 ''You are not a participant in this chat''"

subsection \<open>Strings and the request validator's checks\<close>

text \<open>
  A JavaScript string is a sequence of UTF-16 code units; \<^verbatim>\<open>str.length\<close>, and with it
  the schema's \<^verbatim>\<open>maxlength\<close>, counts code units. \<open>ascii\<close> writes an ASCII literal
  as such a string.
\<close>

type_synonym js_string = "nat list"

definition ascii :: "string \<Rightarrow> js_string" where
  "ascii s = map of_char s"

text \<open>
  \<^verbatim>\<open>body(f).trim()\<close> strips white space at both ends and writes the result back into
  the request body. White space is what the regular expression \<^verbatim>\<open>\s\<close> matches: tab,
  line feed, vertical tab, form feed, carriage return, space, U+00A0, U+1680, U+2000 to
  U+200A, U+2028, U+2029, U+202F, U+205F, U+3000 and U+FEFF.
\<close>

definition is_space :: "nat \<Rightarrow> bool" where
  "is_space c =
     ((0x09 \<le> c \<and> c \<le> 0x0D) \<or> c = 0x20 \<or> c = 0xA0 \<or> c = 0x1680 \<or>
      (0x2000 \<le> c \<and> c \<le> 0x200A) \<or> c = 0x2028 \<or> c = 0x2029 \<or> c = 0x202F \<or>
      c = 0x205F \<or> c = 0x3000 \<or> c = 0xFEFF)"

definition trim :: "js_string \<Rightarrow> js_string" where
  "trim s = rev (dropWhile is_space (rev (dropWhile is_space s)))"

text \<open>
  \<^verbatim>\<open>isLength({ min, max })\<close> does not count code units: from \<^verbatim>\<open>str.length\<close> it
  subtracts the number of variation selectors U+FE0E and U+FE0F and the number of
  surrogate pairs (matches of \<^verbatim>\<open>[\uD800-\uDBFF][\uDC00-\uDFFF]\<close>, found from left to
  right without overlap), so that a character outside the basic plane counts once.
\<close>

fun surrogate_pairs :: "js_string \<Rightarrow> nat" where
  "surrogate_pairs (a # b # s) =
     (if 0xD800 \<le> a \<and> a \<le> 0xDBFF \<and> 0xDC00 \<le> b \<and> b \<le> 0xDFFF
      then Suc (surrogate_pairs s) else surrogate_pairs (b # s))"
| "surrogate_pairs s = 0"

definition presentation_sequences :: "js_string \<Rightarrow> nat" where
  "presentation_sequences s = length (filter (\<lambda>c. c = 0xFE0F \<or> c = 0xFE0E) s)"

definition validator_length :: "js_string \<Rightarrow> nat" where
  "validator_length s = length s - presentation_sequences s - surrogate_pairs s"

definition isLength :: "nat \<Rightarrow> nat option \<Rightarrow> js_string \<Rightarrow> bool" where
  "isLength mn mx s =
     (mn \<le> validator_length s \<and>
      (case mx of None \<Rightarrow> True | Some m \<Rightarrow> validator_length s \<le> m))"

section \<open>Trips (models/Post.js, routes/posts.js)\<close>

datatype trip_status = StActive | StFull | StCompleted | StCancelled

record trip_comment =
  comment_user :: user_id
  comment_text :: js_string
  comment_createdAt :: date

record post =
  post_id :: object_id
  title :: js_string
  description :: js_string
  fromCity :: js_string
  toCity :: js_string
  travelDate :: date
  travelTime :: js_string
  maxParticipants :: int
  currentParticipants :: int
  creator :: user_id
  participants :: "user_id list"
  comments :: "trip_comment list"
  status :: trip_status
  transportMode :: js_string
  estimatedCost :: int
  trip_notes :: js_string

text \<open>
  The database: the posts collection in insertion order, and for every user the two
  arrays of the user document that the post handlers push to and pull from.
\<close>

record db =
  posts :: "post list"
  tripsCreated :: "user_id \<Rightarrow> object_id list"
  tripsJoined :: "user_id \<Rightarrow> object_id list"

definition empty_db :: db where
  "empty_db = \<lparr>posts = [], tripsCreated = (\<lambda>u. []), tripsJoined = (\<lambda>u. [])\<rparr>"

definition findById :: "object_id \<Rightarrow> post list \<Rightarrow> post option" where
  "findById i ps = find (\<lambda>p. post_id p = i) ps"

text \<open>\<^verbatim>\<open>post.save()\<close> of a document that was read from the collection replaces it there.\<close>

definition update_post :: "post \<Rightarrow> post list \<Rightarrow> post list" where
  "update_post p ps = map (\<lambda>q. if post_id q = post_id p then p else q) ps"

subsection \<open>POST /api/posts\<close>

text \<open>
  The travel date of a request: a string that \<^verbatim>\<open>isISO8601()\<close> refuses, one that it
  accepts but \<^verbatim>\<open>new Date()\<close> cannot parse (a week date such as \<^verbatim>\<open>2030-W05-1\<close>), or one
  that \<^verbatim>\<open>new Date()\<close> parses to an instant.
\<close>

datatype date_input = NotISO8601 | InvalidDate | Instant date

text \<open>
  The request body. A participant bound that \<^verbatim>\<open>isInt()\<close> refuses is \<open>None\<close>; the three
  optional fields are \<open>None\<close> when absent.
\<close>

record post_body =
  body_title :: js_string
  body_description :: js_string
  body_fromCity :: js_string
  body_toCity :: js_string
  body_travelDate :: date_input
  body_travelTime :: js_string
  body_maxParticipants :: "int option"
  body_transportMode :: "js_string option"
  body_estimatedCost :: "int option"
  body_notes :: "js_string option"

definition create_validation :: "post_body \<Rightarrow> string list" where
  "create_validation b =
     (if isLength 5 (Some 100) (trim (body_title b)) then []
      else [''Title must be 5-100 characters'']) @
     (if isLength 10 (Some 1000) (trim (body_description b)) then []
      else [''Description must be 10-1000 characters'']) @
     (if isLength 2 None (trim (body_fromCity b)) then []
      else [''From city is required'']) @
     (if isLength 2 None (trim (body_toCity b)) then []
      else [''To city is required'']) @
     (if body_travelDate b \<noteq> NotISO8601 then []
      else [''Valid travel date is required'']) @
     (if body_travelTime b \<noteq> [] then []
      else [''Travel time is required'']) @
     (case body_maxParticipants b of
        None \<Rightarrow> [''Max participants must be 2-10'']
      | Some m \<Rightarrow> if 2 \<le> m \<and> m \<le> 10 then [] else [''Max participants must be 2-10''])"

text \<open>
  The schema's validators, run by \<^verbatim>\<open>save()\<close>; a document that fails them makes
  \<^verbatim>\<open>save()\<close> throw, which the handler answers with status 500.
\<close>

definition post_schema_valid :: "post \<Rightarrow> bool" where
  "post_schema_valid p =
     (title p \<noteq> [] \<and> length (title p) \<le> 100 \<and>
      description p \<noteq> [] \<and> length (description p) \<le> 1000 \<and>
      fromCity p \<noteq> [] \<and> toCity p \<noteq> [] \<and> travelTime p \<noteq> [] \<and>
      2 \<le> maxParticipants p \<and> maxParticipants p \<le> 10 \<and>
      transportMode p \<in>
        set [ascii ''car'', ascii ''bus'', ascii ''train'', ascii ''flight'', ascii ''other''] \<and>
      0 \<le> estimatedCost p \<and> length (trip_notes p) \<le> 500)"

definition comment_schema_valid :: "trip_comment \<Rightarrow> bool" where
  "comment_schema_valid c = (comment_text c \<noteq> [] \<and> length (comment_text c) \<le> 500)"

text \<open>
  \<^verbatim>\<open>new Post({...})\<close>: the fields of the request, the creator as the only participant,
  and the schema's defaults (\<^verbatim>\<open>currentParticipants: 1\<close>, \<^verbatim>\<open>status: 'active'\<close>, no
  comments). The fresh ObjectId is the position the document will take in the collection.
\<close>

definition new_post :: "object_id \<Rightarrow> user_id \<Rightarrow> post_body \<Rightarrow> date \<Rightarrow> int \<Rightarrow> post" where
  "new_post i uid b d m =
     \<lparr>post_id = i,
      title = trim (body_title b),
      description = trim (body_description b),
      fromCity = trim (body_fromCity b),
      toCity = trim (body_toCity b),
      travelDate = d,
      travelTime = body_travelTime b,
      maxParticipants = m,
      currentParticipants = 1,
      creator = uid,
      participants = [uid],
      comments = [],
      status = StActive,
      transportMode =
        (case body_transportMode b of
           None \<Rightarrow> ascii ''car'' | Some t \<Rightarrow> if t = [] then ascii ''car'' else t),
      estimatedCost = (case body_estimatedCost b of None \<Rightarrow> 0 | Some c \<Rightarrow> c),
      trip_notes = (case body_notes b of None \<Rightarrow> [] | Some n \<Rightarrow> n)\<rparr>"

text \<open>
  The handler: the validator's errors first, then the date check, then \<^verbatim>\<open>save()\<close> with
  the schema's validators, then the push to the creator's \<^verbatim>\<open>tripsCreated\<close>. An invalid
  date compares false with the current time, so it passes the date check; \<^verbatim>\<open>save()\<close>
  then cannot cast it (as it cannot cast a missing participant bound) and throws, which
  the handler answers with status 500.
\<close>

definition create_post :: "user_id \<Rightarrow> post_body \<Rightarrow> date \<Rightarrow> db \<Rightarrow> http_error + post \<times> db" where
  "create_post uid b now d =
     (let errors = create_validation b in
      if errors \<noteq> [] then Inl (ValidationErrors errors)
      else if (case body_travelDate b of Instant td \<Rightarrow> td \<le> now | _ \<Rightarrow> False)
      then Inl (HttpError 400 ''Travel date must be in the future'')
      else
        case (body_travelDate b, body_maxParticipants b) of
          (Instant td, Some m) \<Rightarrow>
            let p = new_post (length (posts d)) uid b td m in
            if \<not> post_schema_valid p then Inl ServerError
            else Inr (p, d\<lparr>posts := posts d @ [p],
                          tripsCreated := (tripsCreated d)(uid := tripsCreated d uid @ [post_id p])\<rparr>)
        | _ \<Rightarrow> Inl ServerError)"

subsection \<open>POST /api/posts/:id/join\<close>

definition join :: "object_id \<Rightarrow> user_id \<Rightarrow> db \<Rightarrow> http_error + post \<times> db" where
  "join pid uid d =
     (case findById pid (posts d) of
        None \<Rightarrow> Inl NotFound
      | Some p \<Rightarrow>
          if status p \<noteq> StActive then Inl InvalidState
          else if creator p = uid then Inl SelfJoin
          else if uid \<in> set (participants p) then Inl AlreadyMember
          else if maxParticipants p \<le> currentParticipants p then Inl Full
          else
            let p1 = p\<lparr>participants := participants p @ [uid],
                       currentParticipants := currentParticipants p + 1\<rparr>;
                p2 = (if maxParticipants p1 \<le> currentParticipants p1
                      then p1\<lparr>status := StFull\<rparr> else p1)
            in Inr (p2, d\<lparr>posts := update_post p2 (posts d),
                           tripsJoined := (tripsJoined d)(uid := tripsJoined d uid @ [post_id p2])\<rparr>))"

subsection \<open>POST /api/posts/:id/leave\<close>

definition leave :: "object_id \<Rightarrow> user_id \<Rightarrow> db \<Rightarrow> http_error + db" where
  "leave pid uid d =
     (case findById pid (posts d) of
        None \<Rightarrow> Inl NotFound
      | Some p \<Rightarrow>
          if creator p = uid then Inl CreatorCannotLeave
          else if uid \<notin> set (participants p) then Inl NotMember
          else
            let p1 = p\<lparr>participants := filter (\<lambda>participant. participant \<noteq> uid) (participants p),
                       currentParticipants := currentParticipants p - 1\<rparr>;
                p2 = (if status p1 = StFull then p1\<lparr>status := StActive\<rparr> else p1)
            in Inr (d\<lparr>posts := update_post p2 (posts d),
                       tripsJoined := (tripsJoined d)(uid := removeAll (post_id p2) (tripsJoined d uid))\<rparr>))"

subsection \<open>POST /api/posts/:id/comments\<close>

definition add_comment ::
  "object_id \<Rightarrow> user_id \<Rightarrow> js_string \<Rightarrow> date \<Rightarrow> db \<Rightarrow> http_error + trip_comment list \<times> db" where
  "add_comment pid uid raw now d =
     (let text_trimmed = trim raw in
      if \<not> isLength 1 (Some 500) text_trimmed
      then Inl (ValidationErrors [''Comment must be 1-500 characters''])
      else
        case findById pid (posts d) of
          None \<Rightarrow> Inl NotFound
        | Some p \<Rightarrow>
            let newComment = \<lparr>comment_user = uid, comment_text = text_trimmed,
                               comment_createdAt = now\<rparr>;
                p1 = p\<lparr>comments := comments p @ [newComment]\<rparr>
            in if \<not> comment_schema_valid newComment then Inl ServerError
               else Inr (comments p1, d\<lparr>posts := update_post p1 (posts d)\<rparr>))"

subsection \<open>Sequences of trip operations\<close>

datatype trip_op =
    CreateTrip user_id post_body date
  | Join object_id user_id
  | Leave object_id user_id
  | AddComment object_id user_id js_string date

text \<open>A request that is answered with an error leaves the database as it was.\<close>

fun apply_op :: "db \<Rightarrow> trip_op \<Rightarrow> db" where
  "apply_op d (CreateTrip uid b now) =
     (case create_post uid b now d of Inl e \<Rightarrow> d | Inr (p, d') \<Rightarrow> d')"
| "apply_op d (Join pid uid) =
     (case join pid uid d of Inl e \<Rightarrow> d | Inr (p, d') \<Rightarrow> d')"
| "apply_op d (Leave pid uid) =
     (case leave pid uid d of Inl e \<Rightarrow> d | Inr d' \<Rightarrow> d')"
| "apply_op d (AddComment pid uid raw now) =
     (case add_comment pid uid raw now d of Inl e \<Rightarrow> d | Inr (cs, d') \<Rightarrow> d')"

definition run_ops :: "trip_op list \<Rightarrow> db" where
  "run_ops ops = foldl apply_op empty_db ops"

text \<open>The roster invariant of a trip; the list has no duplicates, which Leave relies on.\<close>

definition roster_ok :: "post \<Rightarrow> bool" where
  "roster_ok p =
     (distinct (participants p) \<and>
      int (length (participants p)) = currentParticipants p \<and>
      currentParticipants p \<le> maxParticipants p \<and>
      creator p \<in> set (participants p))"

section \<open>Conversations (routes/chat.js)\<close>

text \<open>
  The documents the chat handlers read and write: a chat has its two participants, an
  optional related post, its messages in the order they were pushed, and the date field
  \<^verbatim>\<open>lastMessage\<close> (the specification's lastActivity). The collection is kept in
  insertion order, which is the order \<^verbatim>\<open>findOne\<close> searches it in. Where a handler
  populates participants or senders with the users' display documents, the model keeps
  the identifiers those documents are compared by.
\<close>

record message =
  sender :: user_id
  content :: js_string
  timestamp :: date
  read :: bool

record chat =
  chat_id :: object_id
  chat_participants :: "user_id list"
  relatedPost :: "object_id option"
  messages :: "message list"
  lastMessage :: date

text \<open>
  Modelled from the spec: the message sub-schema of models/Chat.js, which is not among the
  sources. The handler supplies sender, content and timestamp; the schema's default gives
  a new message \<open>read = false\<close> ("appends message with read=false").
\<close>

definition new_message :: "user_id \<Rightarrow> js_string \<Rightarrow> date \<Rightarrow> message" where
  "new_message uid c t = \<lparr>sender = uid, content = c, timestamp = t, read = False\<rparr>"

text \<open>
  Modelled from the spec: the validator of the message sub-schema of models/Chat.js
  ("content \<open>\<le>\<close> 1000 chars"), run by \<^verbatim>\<open>save()\<close>.
\<close>

definition message_schema_valid :: "message \<Rightarrow> bool" where
  "message_schema_valid m = (length (content m) \<le> 1000)"

text \<open>
  Modelled from the spec: the defaults of the chat schema of models/Chat.js. A new chat
  has no messages; the specification does not give the initial \<^verbatim>\<open>lastMessage\<close>, which
  is the parameter \<open>t0\<close>. The fresh ObjectId is the position the document will take in the
  collection.
\<close>

definition new_chat ::
  "object_id \<Rightarrow> user_id \<Rightarrow> user_id \<Rightarrow> object_id option \<Rightarrow> date \<Rightarrow> chat" where
  "new_chat i me userId postId t0 =
     \<lparr>chat_id = i, chat_participants = [me, userId], relatedPost = postId,
      messages = [], lastMessage = t0\<rparr>"

definition findChatById :: "object_id \<Rightarrow> chat list \<Rightarrow> chat option" where
  "findChatById i cs = find (\<lambda>c. chat_id c = i) cs"

definition update_chat :: "chat \<Rightarrow> chat list \<Rightarrow> chat list" where
  "update_chat c cs = map (\<lambda>q. if chat_id q = chat_id c then c else q) cs"

subsection \<open>GET /api/chat/:userId\<close>

text \<open>
  \<open>user_exists\<close> is \<^verbatim>\<open>User.findById\<close> of the identity directory. The query
  \<^verbatim>\<open>{ participants: { $all: [me, userId] } }\<close> matches a chat whose participants
  contain both identifiers.
\<close>

definition find_or_create ::
  "(user_id \<Rightarrow> bool) \<Rightarrow> user_id \<Rightarrow> user_id \<Rightarrow> object_id option \<Rightarrow> date \<Rightarrow> chat list
     \<Rightarrow> http_error + chat \<times> chat list" where
  "find_or_create user_exists me userId postId t0 cs =
     (if \<not> user_exists userId then Inl UserNotFound
      else
        case find (\<lambda>c. me \<in> set (chat_participants c) \<and> userId \<in> set (chat_participants c)) cs of
          Some c \<Rightarrow> Inr (c, cs)
        | None \<Rightarrow>
            let c = new_chat (length cs) me userId postId t0
            in Inr (c, cs @ [c]))"

subsection \<open>POST /api/chat/:chatId/messages\<close>

text \<open>
  The handler reads the clock twice: \<open>t1\<close> is the \<^verbatim>\<open>new Date()\<close> of the message's
  timestamp, \<open>t2\<close> the \<^verbatim>\<open>new Date()\<close> assigned to \<^verbatim>\<open>chat.lastMessage\<close>. The answer
  carries the last message of the chat as read back after the save.
\<close>

definition send_message ::
  "object_id \<Rightarrow> user_id \<Rightarrow> js_string \<Rightarrow> date \<Rightarrow> date \<Rightarrow> chat list
     \<Rightarrow> http_error + message option \<times> chat list" where
  "send_message chatId uid raw t1 t2 cs =
     (let content_trimmed = trim raw in
      if \<not> isLength 1 (Some 1000) content_trimmed
      then Inl (ValidationErrors [''Message must be 1-1000 characters''])
      else
        case findChatById chatId cs of
          None \<Rightarrow> Inl ChatNotFound
        | Some c \<Rightarrow>
            if uid \<notin> set (chat_participants c) then Inl Forbidden
            else
              let newMessage = new_message uid content_trimmed t1;
                  c1 = c\<lparr>messages := messages c @ [newMessage], lastMessage := t2\<rparr>;
                  cs1 = update_chat c1 cs
              in if \<not> message_schema_valid newMessage then Inl ServerError
                 else
                   case findChatById chatId cs1 of
                     None \<Rightarrow> Inl ServerError
                   | Some updatedChat \<Rightarrow>
                       Inr (if messages updatedChat = [] then None
                            else Some (messages updatedChat ! (length (messages updatedChat) - 1)),
                            cs1))"

subsection \<open>PUT /api/chat/:chatId/read\<close>

definition mark_read :: "object_id \<Rightarrow> user_id \<Rightarrow> chat list \<Rightarrow> http_error + chat list" where
  "mark_read chatId uid cs =
     (case findChatById chatId cs of
        None \<Rightarrow> Inl ChatNotFound
      | Some c \<Rightarrow>
          if uid \<notin> set (chat_participants c) then Inl Forbidden
          else Inr (update_chat
                      (c\<lparr>messages := map (\<lambda>m. if sender m \<noteq> uid then m\<lparr>read := True\<rparr> else m)
                                           (messages c)\<rparr>) cs))"

subsection \<open>GET /api/chat/conversations\<close>

record conversation =
  conv_id :: object_id
  participant :: "user_id option"
  conv_relatedPost :: "object_id option"
  conv_lastMessage :: "message option"
  unreadCount :: nat

definition format_conversation :: "user_id \<Rightarrow> chat \<Rightarrow> conversation" where
  "format_conversation uid c =
     \<lparr>conv_id = chat_id c,
      participant = find (\<lambda>p. p \<noteq> uid) (chat_participants c),
      conv_relatedPost = relatedPost c,
      conv_lastMessage =
        (if length (messages c) > 0 then Some (messages c ! (length (messages c) - 1)) else None),
      unreadCount = length (filter (\<lambda>msg. sender msg \<noteq> uid \<and> \<not> read msg) (messages c))\<rparr>"

text \<open>
  \<^verbatim>\<open>Chat.find({ participants: uid }).sort({ lastMessage: -1 })\<close>: the chats that contain
  the user, by descending \<^verbatim>\<open>lastMessage\<close>. The database does not specify the order of
  chats with equal \<^verbatim>\<open>lastMessage\<close>; the stable sort used here keeps them in insertion
  order, and no property below depends on that choice.
\<close>

definition list_conversations :: "user_id \<Rightarrow> chat list \<Rightarrow> conversation list" where
  "list_conversations uid cs =
     map (format_conversation uid)
       (sort_key (\<lambda>c. - lastMessage c) (filter (\<lambda>c. uid \<in> set (chat_participants c)) cs))"

subsection \<open>Sequences of chat operations\<close>

datatype chat_op =
    FindOrCreate user_id user_id "object_id option" date
  | AppendMessage object_id user_id js_string date date
  | MarkRead object_id user_id

fun apply_chat_op :: "(user_id \<Rightarrow> bool) \<Rightarrow> chat list \<Rightarrow> chat_op \<Rightarrow> chat list" where
  "apply_chat_op user_exists cs (FindOrCreate me userId postId t0) =
     (case find_or_create user_exists me userId postId t0 cs of
        Inl e \<Rightarrow> cs | Inr (c, cs') \<Rightarrow> cs')"
| "apply_chat_op user_exists cs (AppendMessage chatId uid raw t1 t2) =
     (case send_message chatId uid raw t1 t2 cs of Inl e \<Rightarrow> cs | Inr (m, cs') \<Rightarrow> cs')"
| "apply_chat_op user_exists cs (MarkRead chatId uid) =
     (case mark_read chatId uid cs of Inl e \<Rightarrow> cs | Inr cs' \<Rightarrow> cs')"

definition run_chat_ops :: "(user_id \<Rightarrow> bool) \<Rightarrow> chat_op list \<Rightarrow> chat list" where
  "run_chat_ops user_exists ops = foldl (apply_chat_op user_exists) [] ops"

text \<open>
  The shape of a chat collection that the operations keep: identifiers are unique and
  allocated in order, every chat has two participant entries, and two chats with the same
  set of participants are the same document.
\<close>

definition chats_ok :: "chat list \<Rightarrow> bool" where
  "chats_ok cs =
     (map chat_id cs = [0..<length cs] \<and>
      (\<forall>c\<in>set cs. length (chat_participants c) = 2) \<and>
      (\<forall>c1\<in>set cs. \<forall>c2\<in>set cs.
         set (chat_participants c1) = set (chat_participants c2) \<longrightarrow> chat_id c1 = chat_id c2))"

section \<open>Presence registry (server.js)\<close>

text \<open>
  \<^verbatim>\<open>activeUsers\<close> maps a user identifier, as the client sent it in the \<^verbatim>\<open>join\<close>
  event, to the identifier of the socket that registered last. A socket remembers in
  \<^verbatim>\<open>socket.userId\<close> the identifier of its last \<^verbatim>\<open>join\<close>; it is undefined (\<open>None\<close>)
  before. The identifiers are strings, and the empty string is the falsy one.
\<close>

type_synonym registry = "string \<rightharpoonup> string"

record socket =
  socket_id :: string
  socket_userId :: "string option"

definition on_join :: "string \<Rightarrow> socket \<Rightarrow> registry \<Rightarrow> socket \<times> registry" where
  "on_join userId sock activeUsers =
     (sock\<lparr>socket_userId := Some userId\<rparr>, activeUsers(userId \<mapsto> socket_id sock))"

definition on_disconnect :: "socket \<Rightarrow> registry \<Rightarrow> registry" where
  "on_disconnect sock activeUsers =
     (case socket_userId sock of
        None \<Rightarrow> activeUsers
      | Some userId \<Rightarrow> if userId \<noteq> [] then activeUsers(userId := None) else activeUsers)"

text \<open>
  \<^verbatim>\<open>sendMessage\<close>: the payload is emitted to the receiver's registered socket, if there
  is one; the result is the list of emissions (socket, sender, message, time).
\<close>

definition on_sendMessage ::
  "string \<Rightarrow> string \<Rightarrow> string \<Rightarrow> date \<Rightarrow> registry \<Rightarrow> (string \<times> string \<times> string \<times> date) list" where
  "on_sendMessage receiverId message senderId now activeUsers =
     (case activeUsers receiverId of
        None \<Rightarrow> []
      | Some receiverSocketId \<Rightarrow>
          if receiverSocketId \<noteq> [] then [(receiverSocketId, senderId, message, now)] else [])"

section \<open>Example data\<close>

text \<open>
  The scenario of the specification: a trip for four created by user 7; users 2, 3 and 4
  join, a fifth join is refused, then user 2 leaves.
\<close>

definition example_body :: post_body where
  "example_body =
     \<lparr>body_title = ascii ''Weekend Trip to Goa'',
      body_description = ascii ''Planning a relaxing weekend trip to Goa.'',
      body_fromCity = ascii ''Mumbai'', body_toCity = ascii ''Goa'',
      body_travelDate = Instant 1000, body_travelTime = ascii ''08:00'',
      body_maxParticipants = Some 4, body_transportMode = Some (ascii ''bus''),
      body_estimatedCost = Some 3000, body_notes = None\<rparr>"

definition example_ops :: "trip_op list" where
  "example_ops =
     [CreateTrip 7 example_body 0, Join 0 2, Join 0 3, Join 0 4, Join 0 5, Leave 0 2]"

text \<open>The stored example trip with a given roster, counter and status.\<close>

definition example_post :: "user_id list \<Rightarrow> int \<Rightarrow> trip_status \<Rightarrow> post" where
  "example_post ps n st =
     \<lparr>post_id = 0, title = ascii ''Weekend Trip to Goa'',
      description = ascii ''Planning a relaxing weekend trip to Goa.'',
      fromCity = ascii ''Mumbai'', toCity = ascii ''Goa'', travelDate = 1000, travelTime = ascii ''08:00'',
      maxParticipants = 4, currentParticipants = n, creator = 7, participants = ps,
      comments = [], status = st, transportMode = ascii ''bus'', estimatedCost = 3000,
      trip_notes = []\<rparr>"

definition example_db :: "user_id list \<Rightarrow> int \<Rightarrow> trip_status \<Rightarrow> db" where
  "example_db ps n st =
     \<lparr>posts = [example_post ps n st], tripsCreated = (\<lambda>u. [])(7 := [0]),
      tripsJoined = (\<lambda>u. if u \<in> set ps \<and> u \<noteq> 7 then [0] else [])\<rparr>"

text \<open>
  Users 2, 3 and 4 exist. User 2 opens a conversation with user 3 about trip 0, both write
  one message, then user 4 opens a conversation with user 2.
\<close>

definition example_users :: "user_id \<Rightarrow> bool" where
  "example_users u = (u \<in> set [2, 3, 4])"

definition example_chat_ops :: "chat_op list" where
  "example_chat_ops =
     [FindOrCreate 2 3 (Some 0) 100, AppendMessage 0 2 (ascii ''hello'') 110 111,
      AppendMessage 0 3 (ascii ''hi'') 120 121, FindOrCreate 4 2 None 105]"

definition example_chat :: "message list \<Rightarrow> date \<Rightarrow> chat" where
  "example_chat ms t =
     \<lparr>chat_id = 0, chat_participants = [2, 3], relatedPost = Some 0, messages = ms,
      lastMessage = t\<rparr>"

definition example_chat2 :: chat where
  "example_chat2 =
     \<lparr>chat_id = 1, chat_participants = [4, 2], relatedPost = None, messages = [],
      lastMessage = 105\<rparr>"

definition example_messages :: "bool \<Rightarrow> bool \<Rightarrow> message list" where
  "example_messages r1 r2 =
     [\<lparr>sender = 2, content = ascii ''hello'', timestamp = 110, read = r1\<rparr>,
      \<lparr>sender = 3, content = ascii ''hi'', timestamp = 120, read = r2\<rparr>]"

definition example_chats :: "chat list" where
  "example_chats = [example_chat (example_messages False False) 121, example_chat2]"

text \<open>The conversation user 2 gets by opening one with themselves at time 100.\<close>

definition example_self_chat :: chat where
  "example_self_chat =
     \<lparr>chat_id = 0, chat_participants = [2, 2], relatedPost = None, messages = [],
      lastMessage = 100\<rparr>"

text \<open>A text of \<open>n\<close> emoji U+1F600, each a surrogate pair of two code units.\<close>

definition emoji_text :: "nat \<Rightarrow> js_string" where
  "emoji_text n = concat (replicate n [0xD83D, 0xDE00])"

text \<open>Two sockets on which the same user registers, one after the other.\<close>

definition socket_a :: socket where
  "socket_a = \<lparr>socket_id = ''socket-a'', socket_userId = None\<rparr>"

definition socket_b :: socket where
  "socket_b = \<lparr>socket_id = ''socket-b'', socket_userId = None\<rparr>"

section \<open>Strings\<close>

lemma length_ascii [simp]: "length (ascii s) = length s"
  by (simp add: ascii_def)

lemma ascii_eq_iff [simp]: "ascii s = ascii t \<longleftrightarrow> s = t"
  unfolding ascii_def by (rule inj_map_eq_map[OF inj_of_char])

lemma ascii_Nil_iff [simp]: "ascii s = [] \<longleftrightarrow> s = []"
  by (simp add: ascii_def)

lemma of_char_less_256: "(of_char c :: nat) < 256"
proof -
  have "(of_char c :: nat) mod 256 < 256" by simp
  then show ?thesis by (simp only: of_char_mod_256)
qed

lemma surrogate_pairs_low: "\<forall>c\<in>set s. c < 0xD800 \<Longrightarrow> surrogate_pairs s = 0"
  by (induction s rule: surrogate_pairs.induct) auto

lemma validator_length_ascii [simp]: "validator_length (ascii s) = length s"
proof -
  have low: "\<forall>c\<in>set (ascii s). c < 256"
    by (auto simp: ascii_def of_char_less_256)
  then have "surrogate_pairs (ascii s) = 0" by (intro surrogate_pairs_low) auto
  moreover have "filter (\<lambda>c. c = 0xFE0F \<or> c = 0xFE0E) (ascii s) = []"
    using low by (auto simp: filter_empty_conv)
  ultimately show ?thesis by (simp add: validator_length_def presentation_sequences_def)
qed

lemma validator_length_le: "validator_length s \<le> length s"
  by (simp add: validator_length_def)

lemma trim_no_space:
  assumes "s \<noteq> []" "\<not> is_space (hd s)" "\<not> is_space (last s)"
  shows "trim s = s"
proof -
  have 1: "dropWhile is_space s = s" using assms(1,2) by (cases s) auto
  have "rev s \<noteq> []" "\<not> is_space (hd (rev s))" using assms(1,3) by (simp_all add: hd_rev)
  then have 2: "dropWhile is_space (rev s) = rev s" by (cases "rev s") auto
  show ?thesis by (simp add: trim_def 1 2)
qed

section \<open>Evaluating the example data\<close>

lemma trim_examples:
  "trim (ascii ''Weekend Trip to Goa'') = ascii ''Weekend Trip to Goa''"
  "trim (ascii ''Planning a relaxing weekend trip to Goa.'') =
     ascii ''Planning a relaxing weekend trip to Goa.''"
  "trim (ascii ''Mumbai'') = ascii ''Mumbai''" "trim (ascii ''Goa'') = ascii ''Goa''"
  by (simp_all add: ascii_def trim_def is_space_def)

lemma create_example:
  "create_post 7 example_body 0 empty_db =
     Inr (example_post [7] 1 StActive,
          \<lparr>posts = [example_post [7] 1 StActive], tripsCreated = (\<lambda>u. [])(7 := [0]),
           tripsJoined = (\<lambda>u. [])\<rparr>)"
  by (simp add: create_post_def create_validation_def example_body_def isLength_def trim_examples
      new_post_def post_schema_valid_def example_post_def empty_db_def Let_def)

lemma run_example:
  "posts (run_ops example_ops) = [example_post [7, 3, 4] 3 StActive]"
  by (simp add: run_ops_def example_ops_def create_example join_def leave_def findById_def
      update_post_def example_post_def Let_def)

lemma findById_example:
  "findById 0 (posts (example_db ps n st)) = Some (example_post ps n st)"
  "findById 5 (posts (example_db ps n st)) = None"
  by (simp_all add: findById_def example_db_def example_post_def)

lemma example_post_sel:
  "status (example_post ps n st) = st" "creator (example_post ps n st) = 7"
  "participants (example_post ps n st) = ps" "currentParticipants (example_post ps n st) = n"
  "maxParticipants (example_post ps n st) = 4" "post_id (example_post ps n st) = 0"
  by (simp_all add: example_post_def)

lemma trim_chat_examples:
  "trim (ascii ''hello'') = ascii ''hello''" "trim (ascii ''hi'') = ascii ''hi''"
  by (simp_all add: ascii_def trim_def is_space_def)

lemma run_chat_example: "run_chat_ops example_users example_chat_ops = example_chats"
  by (simp add: run_chat_ops_def example_chat_ops_def example_chats_def example_users_def
      find_or_create_def send_message_def new_chat_def new_message_def Let_def isLength_def
      trim_chat_examples findChatById_def update_chat_def message_schema_valid_def
      example_chat_def example_chat2_def example_messages_def)

lemma emoji_text_Suc: "emoji_text (Suc n) = 0xD83D # 0xDE00 # emoji_text n"
  by (simp add: emoji_text_def)

lemma emoji_text_snoc: "emoji_text (Suc n) = emoji_text n @ [0xD83D, 0xDE00]"
  by (induction n) (simp_all add: emoji_text_def)

lemma length_emoji_text: "length (emoji_text n) = 2 * n"
  by (induction n) (simp_all add: emoji_text_Suc, simp add: emoji_text_def)

lemma surrogate_pairs_emoji_text: "surrogate_pairs (emoji_text n) = n"
  by (induction n) (simp_all add: emoji_text_Suc, simp add: emoji_text_def)

lemma presentation_sequences_emoji_text: "presentation_sequences (emoji_text n) = 0"
  by (induction n) (simp_all add: emoji_text_Suc presentation_sequences_def, simp add: emoji_text_def)

lemma validator_length_emoji_text: "validator_length (emoji_text n) = n"
  by (simp add: validator_length_def length_emoji_text surrogate_pairs_emoji_text
      presentation_sequences_emoji_text)

lemma trim_emoji_text: "trim (emoji_text n) = emoji_text n"
proof (cases n)
  case 0
  then show ?thesis by (simp add: emoji_text_def trim_def)
next
  case (Suc m)
  have "emoji_text (Suc m) \<noteq> []" "\<not> is_space (hd (emoji_text (Suc m)))"
    by (simp_all add: emoji_text_Suc is_space_def)
  moreover have "\<not> is_space (last (emoji_text (Suc m)))"
    by (simp add: emoji_text_snoc is_space_def)
  ultimately show ?thesis unfolding Suc by (rule trim_no_space)
qed

section \<open>Properties of the trip roster\<close>

lemma findById_update_post:
  "findById pid ps = Some p \<Longrightarrow> post_id p' = pid \<Longrightarrow> findById pid (update_post p' ps) = Some p'"
  by (induction ps) (auto simp: findById_def update_post_def)

lemma findById_id: "findById pid ps = Some p \<Longrightarrow> post_id p = pid"
  by (auto simp: findById_def find_Some_iff)

lemma findById_mem: "findById pid ps = Some p \<Longrightarrow> p \<in> set ps"
  by (auto simp: findById_def find_Some_iff)

lemma set_update_post: "q \<in> set (update_post p ps) \<Longrightarrow> q = p \<or> q \<in> set ps"
  by (auto simp: update_post_def)

lemma roster_ok_new_post:
  "2 \<le> maxParticipants (new_post i uid b td m) \<Longrightarrow> roster_ok (new_post i uid b td m)"
  by (simp add: roster_ok_def new_post_def)

lemma create_post_roster:
  assumes "\<forall>p\<in>set (posts d). roster_ok p" and "create_post uid b now d = Inr (p, d')"
  shows "\<forall>q\<in>set (posts d'). roster_ok q"
  using assms
  by (auto simp: create_post_def Let_def post_schema_valid_def roster_ok_new_post
           split: if_splits option.splits prod.splits date_input.splits)

lemma roster_ok_join:
  assumes "roster_ok p" "uid \<notin> set (participants p)" "currentParticipants p < maxParticipants p"
  shows "roster_ok (p\<lparr>participants := participants p @ [uid],
                      currentParticipants := currentParticipants p + 1, status := s\<rparr>)"
    and "roster_ok (p\<lparr>participants := participants p @ [uid],
                      currentParticipants := currentParticipants p + 1\<rparr>)"
  using assms by (auto simp: roster_ok_def)

lemma join_roster:
  assumes "\<forall>p\<in>set (posts d). roster_ok p" and "join pid uid d = Inr (p, d')"
  shows "\<forall>q\<in>set (posts d'). roster_ok q"
  using assms
  by (auto simp: join_def Let_def roster_ok_join 
           split: if_splits option.splits dest!: set_update_post findById_mem)

lemma length_filter_neq:
  "distinct xs \<Longrightarrow> x \<in> set xs \<Longrightarrow> Suc (length (filter (\<lambda>y. y \<noteq> x) xs)) = length xs"
proof (induction xs)
  case Nil
  then show ?case by simp
next
  case (Cons a xs)
  show ?case
  proof (cases "a = x")
    case True
    with Cons.prems have "x \<notin> set xs" by simp
    then have "filter (\<lambda>y. y \<noteq> x) xs = xs" by (auto simp: filter_id_conv)
    with True show ?thesis by simp
  next
    case False
    with Cons show ?thesis by simp
  qed
qed

lemma roster_ok_leave:
  assumes "roster_ok p" "uid \<in> set (participants p)" "creator p \<noteq> uid"
  shows "roster_ok (p\<lparr>participants := filter (\<lambda>x. x \<noteq> uid) (participants p),
                      currentParticipants := currentParticipants p - 1, status := s\<rparr>)"
    and "roster_ok (p\<lparr>participants := filter (\<lambda>x. x \<noteq> uid) (participants p),
                      currentParticipants := currentParticipants p - 1\<rparr>)"
  using assms length_filter_neq[of "participants p" uid]
  by (auto simp: roster_ok_def)

lemma leave_roster:
  assumes "\<forall>p\<in>set (posts d). roster_ok p" and "leave pid uid d = Inr d'"
  shows "\<forall>q\<in>set (posts d'). roster_ok q"
  using assms
  by (auto simp: leave_def Let_def roster_ok_leave
           split: if_splits option.splits dest!: set_update_post findById_mem)

lemma roster_ok_comments: "roster_ok (p\<lparr>comments := cs\<rparr>) = roster_ok p"
  by (simp add: roster_ok_def)

lemma add_comment_roster:
  assumes "\<forall>p\<in>set (posts d). roster_ok p" and "add_comment pid uid raw now d = Inr (cs, d')"
  shows "\<forall>q\<in>set (posts d'). roster_ok q"
  using assms
  by (auto simp: add_comment_def Let_def roster_ok_comments
           split: if_splits option.splits dest!: set_update_post findById_mem)

lemma apply_op_roster:
  "\<forall>p\<in>set (posts d). roster_ok p \<Longrightarrow> \<forall>q\<in>set (posts (apply_op d op)). roster_ok q"
proof (cases op)
  case (CreateTrip uid b now)
  assume "\<forall>p\<in>set (posts d). roster_ok p"
  then show ?thesis using CreateTrip create_post_roster[of d uid b now]
    by (auto split: sum.splits)
next
  case (Join pid uid)
  assume "\<forall>p\<in>set (posts d). roster_ok p"
  then show ?thesis using Join join_roster[of d pid uid]
    by (auto split: sum.splits)
next
  case (Leave pid uid)
  assume "\<forall>p\<in>set (posts d). roster_ok p"
  then show ?thesis using Leave leave_roster[of d pid uid]
    by (auto split: sum.splits)
next
  case (AddComment pid uid raw now)
  assume "\<forall>p\<in>set (posts d). roster_ok p"
  then show ?thesis using AddComment add_comment_roster[of d pid uid raw now]
    by (auto split: sum.splits)
qed

lemma foldl_apply_op_roster:
  "\<forall>p\<in>set (posts d). roster_ok p \<Longrightarrow> \<forall>q\<in>set (posts (foldl apply_op d ops)). roster_ok q"
proof (induction ops arbitrary: d)
  case Nil
  then show ?case by simp
next
  case (Cons a ops)
  from Cons.IH[OF apply_op_roster[OF Cons.prems]] show ?case by simp
qed

text \<open>
  Claim C1. In every database reached from the empty one by any sequence of CreateTrip,
  Join, Leave and AddComment requests (a refused request changes nothing), every stored
  trip has a roster whose length is the counter \<open>currentParticipants\<close>, that length is at most
  \<open>maxParticipants\<close>, and the creator is on the roster.
\<close>

theorem roster_invariant:
  assumes "p \<in> set (posts (run_ops ops))"
  shows "int (length (participants p)) = currentParticipants p \<and>
         int (length (participants p)) \<le> maxParticipants p \<and>
         creator p \<in> set (participants p)"
proof -
  have "\<forall>q\<in>set (posts empty_db). roster_ok q"
    by (simp add: empty_db_def)
  then have "\<forall>q\<in>set (posts (run_ops ops)). roster_ok q"
    unfolding run_ops_def by (rule foldl_apply_op_roster)
  with assms have "roster_ok p" by blast
  then show ?thesis by (simp add: roster_ok_def)
qed

theorem roster_invariant_witness:
  "example_post [7, 3, 4] 3 StActive \<in> set (posts (run_ops example_ops)) \<and>
   int (length (participants (example_post [7, 3, 4] 3 StActive))) =
     currentParticipants (example_post [7, 3, 4] 3 StActive) \<and>
   int (length (participants (example_post [7, 3, 4] 3 StActive))) \<le>
     maxParticipants (example_post [7, 3, 4] 3 StActive) \<and>
   creator (example_post [7, 3, 4] 3 StActive) \<in>
     set (participants (example_post [7, 3, 4] 3 StActive))"
proof -
  have mem: "example_post [7, 3, 4] 3 StActive \<in> set (posts (run_ops example_ops))"
    by (simp add: run_example)
  from mem roster_invariant[OF mem] show ?thesis by simp
qed

section \<open>Join and Leave\<close>

lemma findById_update_post_other:
  "i \<noteq> post_id p' \<Longrightarrow> findById i (update_post p' ps) = findById i ps"
  by (induction ps) (auto simp: findById_def update_post_def)

lemma filter_neq_removeAll: "filter (\<lambda>y. y \<noteq> x) xs = removeAll x xs"
  by (induction xs) auto

text \<open>
  Claim C2. Join on an identifier that is not stored is answered NotFound. For a stored
  trip whose status is active the checks are made in this order: the creator is answered
  SelfJoin; any other user already on the roster is answered AlreadyMember; any other user
  is answered Full when the counter \<open>currentParticipants\<close> has reached \<open>maxParticipants\<close>;
  otherwise the user is appended to the roster, the counter grows by one, and the status
  becomes full exactly when the new counter reaches \<open>maxParticipants\<close> (it stays active
  otherwise). Every other field and every other trip is unchanged. By claim C1 the counter
  is the length of the roster on every reachable trip.
\<close>

theorem join_outcome:
  "(findById pid (posts d) = None \<longrightarrow> join pid uid d = Inl NotFound) \<and>
   (\<forall>p. findById pid (posts d) = Some p \<and> status p = StActive \<longrightarrow>
      (uid = creator p \<longrightarrow> join pid uid d = Inl SelfJoin) \<and>
      (uid \<noteq> creator p \<and> uid \<in> set (participants p) \<longrightarrow> join pid uid d = Inl AlreadyMember) \<and>
      (uid \<noteq> creator p \<and> uid \<notin> set (participants p) \<and>
       maxParticipants p \<le> currentParticipants p \<longrightarrow> join pid uid d = Inl Full) \<and>
      (uid \<noteq> creator p \<and> uid \<notin> set (participants p) \<and>
       currentParticipants p < maxParticipants p \<longrightarrow>
         (\<exists>p' d'. join pid uid d = Inr (p', d') \<and>
            p' = p\<lparr>participants := participants p @ [uid],
                    currentParticipants := currentParticipants p + 1,
                    status := (if maxParticipants p \<le> currentParticipants p + 1
                               then StFull else StActive)\<rparr> \<and>
            findById pid (posts d') = Some p' \<and>
            (\<forall>i. i \<noteq> pid \<longrightarrow> findById i (posts d') = findById i (posts d)))))"
proof (intro conjI allI impI)
  assume "findById pid (posts d) = None"
  then show "join pid uid d = Inl NotFound" by (simp add: join_def)
next
  fix p assume "findById pid (posts d) = Some p \<and> status p = StActive" "uid = creator p"
  then show "join pid uid d = Inl SelfJoin" by (simp add: join_def)
next
  fix p assume "findById pid (posts d) = Some p \<and> status p = StActive"
    "uid \<noteq> creator p \<and> uid \<in> set (participants p)"
  then show "join pid uid d = Inl AlreadyMember" by (auto simp: join_def)
next
  fix p assume "findById pid (posts d) = Some p \<and> status p = StActive"
    "uid \<noteq> creator p \<and> uid \<notin> set (participants p) \<and> maxParticipants p \<le> currentParticipants p"
  then show "join pid uid d = Inl Full" by (auto simp: join_def)
next
  fix p assume a: "findById pid (posts d) = Some p \<and> status p = StActive"
    and b: "uid \<noteq> creator p \<and> uid \<notin> set (participants p) \<and>
            currentParticipants p < maxParticipants p"
  define p' where "p' = p\<lparr>participants := participants p @ [uid],
                    currentParticipants := currentParticipants p + 1,
                    status := (if maxParticipants p \<le> currentParticipants p + 1
                               then StFull else StActive)\<rparr>"
  define d' where "d' = d\<lparr>posts := update_post p' (posts d),
      tripsJoined := (tripsJoined d)(uid := tripsJoined d uid @ [post_id p'])\<rparr>"
  have id: "post_id p' = pid" using a by (auto simp: p'_def dest: findById_id)
  have same: "q\<lparr>status := StActive\<rparr> = q" if "status q = StActive" for q :: post
    using that by (cases q) simp
  have "join pid uid d = Inr (p', d')"
    using a b by (auto simp: join_def Let_def p'_def d'_def same)
  moreover have "findById pid (posts d') = Some p'"
    using a id by (simp add: d'_def findById_update_post)
  moreover have "\<forall>i. i \<noteq> pid \<longrightarrow> findById i (posts d') = findById i (posts d)"
    using id by (simp add: d'_def findById_update_post_other)
  ultimately show "\<exists>p' d'. join pid uid d = Inr (p', d') \<and>
            p' = p\<lparr>participants := participants p @ [uid],
                    currentParticipants := currentParticipants p + 1,
                    status := (if maxParticipants p \<le> currentParticipants p + 1
                               then StFull else StActive)\<rparr> \<and>
            findById pid (posts d') = Some p' \<and>
            (\<forall>i. i \<noteq> pid \<longrightarrow> findById i (posts d') = findById i (posts d))"
    unfolding p'_def[symmetric] by blast
qed

theorem join_outcome_witness:
  "findById 5 (posts (example_db [7] 1 StActive)) = None \<and>
   join 5 2 (example_db [7] 1 StActive) = Inl NotFound \<and>
   findById 0 (posts (example_db [7, 2] 2 StActive)) = Some (example_post [7, 2] 2 StActive) \<and>
   status (example_post [7, 2] 2 StActive) = StActive \<and>
   join 0 7 (example_db [7, 2] 2 StActive) = Inl SelfJoin \<and>
   join 0 2 (example_db [7, 2] 2 StActive) = Inl AlreadyMember \<and>
   join 0 5 (example_db [7, 2, 3, 4] 4 StActive) = Inl Full \<and>
   map_sum id fst (join 0 3 (example_db [7, 2] 2 StActive)) = Inr (example_post [7, 2, 3] 3 StActive) \<and>
   map_sum id fst (join 0 4 (example_db [7, 2, 3] 3 StActive)) = Inr (example_post [7, 2, 3, 4] 4 StFull)"
  using join_outcome[of 5 "example_db [7] 1 StActive" 2]
    join_outcome[of 0 "example_db [7, 2] 2 StActive" 7]
    join_outcome[of 0 "example_db [7, 2] 2 StActive" 2]
    join_outcome[of 0 "example_db [7, 2, 3, 4] 4 StActive" 5]
    join_outcome[of 0 "example_db [7, 2] 2 StActive" 3]
    join_outcome[of 0 "example_db [7, 2, 3] 3 StActive" 4]
  by (auto simp: findById_example example_post_sel) (simp_all add: example_post_def)

lemma leave_member:
  assumes a: "findById pid (posts d) = Some p"
    and b: "uid \<noteq> creator p" "uid \<in> set (participants p)"
  shows "\<exists>d'. leave pid uid d = Inr d' \<and>
           findById pid (posts d') =
             Some (p\<lparr>participants := removeAll uid (participants p),
                      currentParticipants := currentParticipants p - 1,
                      status := (if status p = StFull then StActive else status p)\<rparr>) \<and>
           (\<forall>i. i \<noteq> pid \<longrightarrow> findById i (posts d') = findById i (posts d))"
proof -
  define p' where "p' = p\<lparr>participants := removeAll uid (participants p),
                    currentParticipants := currentParticipants p - 1,
                    status := (if status p = StFull then StActive else status p)\<rparr>"
  define d' where "d' = d\<lparr>posts := update_post p' (posts d),
      tripsJoined := (tripsJoined d)(uid := removeAll (post_id p') (tripsJoined d uid))\<rparr>"
  have id: "post_id p' = pid" using a by (auto simp: p'_def dest: findById_id)
  have flt: "filter (\<lambda>participant. participant \<noteq> uid) (participants p) =
             removeAll uid (participants p)"
    by (rule filter_neq_removeAll)
  have "leave pid uid d = Inr d'"
    using a b by (auto simp: leave_def Let_def p'_def d'_def flt)
  moreover have "findById pid (posts d') = Some p'"
    using a id by (simp add: d'_def findById_update_post)
  moreover have "\<forall>i. i \<noteq> pid \<longrightarrow> findById i (posts d') = findById i (posts d)"
    using id by (simp add: d'_def findById_update_post_other)
  ultimately show ?thesis unfolding p'_def[symmetric] by blast
qed

text \<open>
  Claim C4. Leave on an identifier that is not stored is answered NotFound. For a stored
  trip, whatever its status, roster and counter, the creator is answered
  CreatorCannotLeave; any other user who is not on the roster is answered NotMember; and
  any other user is removed from the roster, the counter drops by one, and a status of
  full goes back to active (any other status stays). Every other field and every other
  trip is unchanged.
\<close>

theorem leave_outcome:
  "(findById pid (posts d) = None \<longrightarrow> leave pid uid d = Inl NotFound) \<and>
   (\<forall>p. findById pid (posts d) = Some p \<longrightarrow>
      (uid = creator p \<longrightarrow> leave pid uid d = Inl CreatorCannotLeave) \<and>
      (uid \<noteq> creator p \<and> uid \<notin> set (participants p) \<longrightarrow> leave pid uid d = Inl NotMember) \<and>
      (uid \<noteq> creator p \<and> uid \<in> set (participants p) \<longrightarrow>
         (\<exists>p' d'. leave pid uid d = Inr d' \<and>
            p' = p\<lparr>participants := removeAll uid (participants p),
                    currentParticipants := currentParticipants p - 1,
                    status := (if status p = StFull then StActive else status p)\<rparr> \<and>
            uid \<notin> set (participants p') \<and>
            findById pid (posts d') = Some p' \<and>
            (\<forall>i. i \<noteq> pid \<longrightarrow> findById i (posts d') = findById i (posts d)))))"
proof (intro conjI allI impI)
  assume "findById pid (posts d) = None"
  then show "leave pid uid d = Inl NotFound" by (simp add: leave_def)
next
  fix p assume "findById pid (posts d) = Some p" "uid = creator p"
  then show "leave pid uid d = Inl CreatorCannotLeave" by (simp add: leave_def)
next
  fix p assume "findById pid (posts d) = Some p"
    "uid \<noteq> creator p \<and> uid \<notin> set (participants p)"
  then show "leave pid uid d = Inl NotMember" by (auto simp: leave_def)
next
  fix p assume a: "findById pid (posts d) = Some p"
    and b: "uid \<noteq> creator p \<and> uid \<in> set (participants p)"
  from leave_member[OF a] b
  show "\<exists>p' d'. leave pid uid d = Inr d' \<and>
            p' = p\<lparr>participants := removeAll uid (participants p),
                    currentParticipants := currentParticipants p - 1,
                    status := (if status p = StFull then StActive else status p)\<rparr> \<and>
            uid \<notin> set (participants p') \<and>
            findById pid (posts d') = Some p' \<and>
            (\<forall>i. i \<noteq> pid \<longrightarrow> findById i (posts d') = findById i (posts d))"
    by auto
qed

theorem leave_outcome_witness:
  "findById 5 (posts (example_db [7, 2, 3, 4] 4 StFull)) = None \<and>
   leave 5 2 (example_db [7, 2, 3, 4] 4 StFull) = Inl NotFound \<and>
   findById 0 (posts (example_db [7, 2, 3, 4] 4 StFull)) =
     Some (example_post [7, 2, 3, 4] 4 StFull) \<and>
   leave 0 7 (example_db [7, 2, 3, 4] 4 StFull) = Inl CreatorCannotLeave \<and>
   leave 0 9 (example_db [7, 2, 3, 4] 4 StFull) = Inl NotMember \<and>
   map_sum id posts (leave 0 2 (example_db [7, 2, 3, 4] 4 StFull)) =
     Inr [example_post [7, 3, 4] 3 StActive]"
  using leave_outcome[of 5 "example_db [7, 2, 3, 4] 4 StFull" 2]
    leave_outcome[of 0 "example_db [7, 2, 3, 4] 4 StFull" 7]
    leave_outcome[of 0 "example_db [7, 2, 3, 4] 4 StFull" 9]
    leave_outcome[of 0 "example_db [7, 2, 3, 4] 4 StFull" 2]
  by (auto simp: findById_example example_post_sel)
     (simp_all add: example_post_def example_db_def update_post_def leave_def findById_def Let_def)

text \<open>
  Claim C3, as the code has it. For every stored trip whose status is completed or
  cancelled, Join is answered InvalidState and changes nothing. Leave does not look at the
  status and is never answered InvalidState: the creator is answered CreatorCannotLeave and
  a user who is not on the roster NotMember, both changing nothing, while any other member
  is removed from the roster and the counter drops by one; the status stays as it was.
\<close>

theorem terminal_trip_join_leave:
  assumes a: "findById pid (posts d) = Some p"
    and t: "status p = StCompleted \<or> status p = StCancelled"
  shows "join pid uid d = Inl InvalidState \<and> apply_op d (Join pid uid) = d \<and>
     leave pid uid d \<noteq> Inl InvalidState \<and>
     (uid = creator p \<longrightarrow>
        leave pid uid d = Inl CreatorCannotLeave \<and> apply_op d (Leave pid uid) = d) \<and>
     (uid \<noteq> creator p \<and> uid \<notin> set (participants p) \<longrightarrow>
        leave pid uid d = Inl NotMember \<and> apply_op d (Leave pid uid) = d) \<and>
     (uid \<noteq> creator p \<and> uid \<in> set (participants p) \<longrightarrow>
        (\<exists>d'. leave pid uid d = Inr d' \<and>
           findById pid (posts d') =
             Some (p\<lparr>participants := removeAll uid (participants p),
                      currentParticipants := currentParticipants p - 1\<rparr>)))"
proof -
  from t have t': "status p \<noteq> StActive" "status p \<noteq> StFull" by auto
  have j: "join pid uid d = Inl InvalidState" using a t' by (simp add: join_def)
  have l1: "leave pid uid d = Inl CreatorCannotLeave" if "uid = creator p"
    using a that by (simp add: leave_def)
  have l2: "leave pid uid d = Inl NotMember" if "uid \<noteq> creator p \<and> uid \<notin> set (participants p)"
    using a that by (auto simp: leave_def)
  have l3: "\<exists>d'. leave pid uid d = Inr d' \<and>
           findById pid (posts d') =
             Some (p\<lparr>participants := removeAll uid (participants p),
                      currentParticipants := currentParticipants p - 1\<rparr>)"
    if "uid \<noteq> creator p \<and> uid \<in> set (participants p)"
  proof -
    have same: "q\<lparr>status := status p\<rparr> = q" if "status q = status p" for q :: post
      using that by (cases q) simp
    from leave_member[OF a] that t' show ?thesis by (auto simp: same)
  qed
  have l4: "leave pid uid d \<noteq> Inl InvalidState"
    using l1 l2 l3 by (cases "uid = creator p"; cases "uid \<in> set (participants p)") auto
  show ?thesis using j l1 l2 l3 l4 by simp
qed

theorem terminal_trip_join_leave_witness:
  "findById 0 (posts (example_db [7, 2] 2 StCompleted)) = Some (example_post [7, 2] 2 StCompleted) \<and>
   status (example_post [7, 2] 2 StCompleted) = StCompleted \<and>
   join 0 3 (example_db [7, 2] 2 StCompleted) = Inl InvalidState \<and>
   leave 0 7 (example_db [7, 2] 2 StCompleted) = Inl CreatorCannotLeave \<and>
   leave 0 9 (example_db [7, 2] 2 StCompleted) = Inl NotMember \<and>
   (\<exists>d'. leave 0 2 (example_db [7, 2] 2 StCompleted) = Inr d' \<and>
      findById 0 (posts d') = Some (example_post [7] 1 StCompleted))"
proof -
  have a: "findById 0 (posts (example_db [7, 2] 2 StCompleted)) =
           Some (example_post [7, 2] 2 StCompleted)"
    by (rule findById_example)
  have t: "status (example_post [7, 2] 2 StCompleted) = StCompleted \<or>
           status (example_post [7, 2] 2 StCompleted) = StCancelled"
    by (simp add: example_post_sel)
  note T = terminal_trip_join_leave[OF a t]
  have upd: "(example_post [7, 2] 2 StCompleted)\<lparr>participants := [7], currentParticipants := 1\<rparr> =
             example_post [7] 1 StCompleted"
    by (simp add: example_post_def)
  have "join 0 3 (example_db [7, 2] 2 StCompleted) = Inl InvalidState"
    using T[of 3] by simp
  moreover have "leave 0 7 (example_db [7, 2] 2 StCompleted) = Inl CreatorCannotLeave"
    using T[of 7] by (simp add: example_post_sel)
  moreover have "leave 0 9 (example_db [7, 2] 2 StCompleted) = Inl NotMember"
    using T[of 9] by (simp add: example_post_sel)
  moreover have "\<exists>d'. leave 0 2 (example_db [7, 2] 2 StCompleted) = Inr d' \<and>
      findById 0 (posts d') = Some (example_post [7] 1 StCompleted)"
    using T[of 2] by (simp add: example_post_sel upd)
  ultimately show ?thesis using a by (simp add: example_post_sel)
qed

text \<open>
  The claim as written fails for Leave: on a completed trip with roster \<open>[7, 2]\<close> the
  request of member 2 is accepted and the roster becomes \<open>[7]\<close>.
\<close>

theorem leave_terminal_counterexample:
  "status (example_post [7, 2] 2 StCompleted) = StCompleted \<and>
   findById 0 (posts (example_db [7, 2] 2 StCompleted)) = Some (example_post [7, 2] 2 StCompleted) \<and>
   leave 0 2 (example_db [7, 2] 2 StCompleted) \<noteq> Inl InvalidState \<and>
   map_sum id posts (leave 0 2 (example_db [7, 2] 2 StCompleted)) =
     Inr [example_post [7] 1 StCompleted]"
  by (simp add: example_post_def example_db_def update_post_def leave_def findById_def Let_def)

section \<open>Comments\<close>

lemma trim_comment_example: "trim (ascii ''  see you there  '') = ascii ''see you there''"
  by (simp add: ascii_def trim_def is_space_def)

text \<open>
  Claim C10, as the code has it. For every stored trip and every user, a comment whose
  trimmed text passes the validator (1 to 500 characters as \<^verbatim>\<open>isLength\<close> counts them)
  and is at most 500 code units long, which is what the schema's \<^verbatim>\<open>maxlength\<close> counts,
  is accepted: the trimmed text is appended to the trip's comments with the user and the
  server's time, and the new comment list is returned. Neither the trip's status nor its
  roster is consulted.
\<close>

theorem add_comment_any_status:
  assumes "findById pid (posts d) = Some p"
    and "isLength 1 (Some 500) (trim raw)" "length (trim raw) \<le> 500"
  shows "\<exists>d'. add_comment pid uid raw now d =
                 Inr (comments p @ [\<lparr>comment_user = uid, comment_text = trim raw,
                                      comment_createdAt = now\<rparr>], d') \<and>
              findById pid (posts d') =
                Some (p\<lparr>comments := comments p @ [\<lparr>comment_user = uid, comment_text = trim raw,
                                                     comment_createdAt = now\<rparr>]\<rparr>) \<and>
              (\<forall>i. i \<noteq> pid \<longrightarrow> findById i (posts d') = findById i (posts d))"
proof -
  define c where "c = \<lparr>comment_user = uid, comment_text = trim raw, comment_createdAt = now\<rparr>"
  define d' where "d' = d\<lparr>posts := update_post (p\<lparr>comments := comments p @ [c]\<rparr>) (posts d)\<rparr>"
  have id: "post_id (p\<lparr>comments := comments p @ [c]\<rparr>) = pid"
    using assms(1) by (auto dest: findById_id)
  have "1 \<le> validator_length (trim raw)" using assms(2) by (simp add: isLength_def)
  with validator_length_le[of "trim raw"] have ne: "trim raw \<noteq> []" by auto
  have "add_comment pid uid raw now d = Inr (comments p @ [c], d')"
    using assms ne
    by (simp add: add_comment_def Let_def comment_schema_valid_def c_def d'_def)
  moreover have "findById pid (posts d') = Some (p\<lparr>comments := comments p @ [c]\<rparr>)"
    using assms(1) id by (simp add: d'_def findById_update_post)
  moreover have "\<forall>i. i \<noteq> pid \<longrightarrow> findById i (posts d') = findById i (posts d)"
    using id by (simp add: d'_def findById_update_post_other)
  ultimately show ?thesis unfolding c_def by blast
qed

theorem add_comment_any_status_witness:
  "findById 0 (posts (example_db [7, 2] 2 StCancelled)) = Some (example_post [7, 2] 2 StCancelled) \<and>
   isLength 1 (Some 500) (trim (ascii ''  see you there  '')) \<and>
   length (trim (ascii ''  see you there  '')) \<le> 500 \<and>
   9 \<notin> set (participants (example_post [7, 2] 2 StCancelled)) \<and>
   status (example_post [7, 2] 2 StCancelled) = StCancelled \<and>
   map_sum id fst (add_comment 0 9 (ascii ''  see you there  '') 50 (example_db [7, 2] 2 StCancelled)) =
     Inr [\<lparr>comment_user = 9, comment_text = ascii ''see you there'', comment_createdAt = 50\<rparr>]"
proof -
  have h1: "findById 0 (posts (example_db [7, 2] 2 StCancelled)) = Some (example_post [7, 2] 2 StCancelled)"
    by (rule findById_example)
  have h2: "isLength 1 (Some 500) (trim (ascii ''  see you there  ''))"
    "length (trim (ascii ''  see you there  '')) \<le> 500"
    by (simp_all add: trim_comment_example isLength_def)
  from add_comment_any_status[OF h1 h2, of 9 50] h1 h2 show ?thesis
    by (auto simp: example_post_sel trim_comment_example) (simp add: example_post_def)
qed

text \<open>
  The claim as written fails for a text of 300 emoji: it is unchanged by trimming and has
  300 characters for the validator, which accepts it, but 600 code units, so the schema
  refuses it on save and the handler answers with status 500, storing nothing; here for
  participant 2 of an active trip.
\<close>

theorem add_comment_emoji_counterexample:
  "findById 0 (posts (example_db [7, 2] 2 StActive)) = Some (example_post [7, 2] 2 StActive) \<and>
   trim (emoji_text 300) = emoji_text 300 \<and>
   validator_length (emoji_text 300) = 300 \<and>
   length (emoji_text 300) = 600 \<and>
   add_comment 0 2 (emoji_text 300) 50 (example_db [7, 2] 2 StActive) = Inl ServerError"
  by (simp add: findById_example trim_emoji_text validator_length_emoji_text length_emoji_text
      add_comment_def isLength_def comment_schema_valid_def Let_def)

section \<open>Conversations: one per pair\<close>

lemma find_append_list:
  "find P (xs @ ys) = (case find P xs of None \<Rightarrow> find P ys | Some x \<Rightarrow> Some x)"
  by (induction xs) auto

lemma chats_ok_distinct: "chats_ok cs \<Longrightarrow> distinct (map chat_id cs)"
  by (simp add: chats_ok_def)

lemma chats_ok_ids: "chats_ok cs \<Longrightarrow> map chat_id cs = [0..<length cs]"
  unfolding chats_ok_def by (elim conjE)

lemma chats_ok_two: "chats_ok cs \<Longrightarrow> c \<in> set cs \<Longrightarrow> length (chat_participants c) = 2"
  unfolding chats_ok_def by blast

lemma chats_ok_pair:
  "chats_ok cs \<Longrightarrow> c1 \<in> set cs \<Longrightarrow> c2 \<in> set cs \<Longrightarrow>
   set (chat_participants c1) = set (chat_participants c2) \<Longrightarrow> chat_id c1 = chat_id c2"
  unfolding chats_ok_def by blast

lemma chats_okI:
  assumes "map chat_id cs = [0..<length cs]"
    and "\<And>c. c \<in> set cs \<Longrightarrow> length (chat_participants c) = 2"
    and "\<And>c1 c2. c1 \<in> set cs \<Longrightarrow> c2 \<in> set cs \<Longrightarrow>
           set (chat_participants c1) = set (chat_participants c2) \<Longrightarrow> chat_id c1 = chat_id c2"
  shows "chats_ok cs"
  unfolding chats_ok_def using assms by blast

lemma chats_ok_same_keys:
  assumes ok: "chats_ok cs"
    and ids: "map chat_id cs' = map chat_id cs"
    and ps: "map chat_participants cs' = map chat_participants cs"
  shows "chats_ok cs'"
proof -
  have len: "length cs' = length cs" using ids by (rule map_eq_imp_length_eq)
  have key: "\<exists>c0\<in>set cs. chat_id c0 = chat_id c \<and> chat_participants c0 = chat_participants c"
    if "c \<in> set cs'" for c
  proof -
    from that obtain i where i: "i < length cs'" "cs' ! i = c" by (auto simp: in_set_conv_nth)
    have i': "i < length cs" using i(1) len by simp
    have "map chat_id cs' ! i = map chat_id cs ! i" by (simp only: ids)
    then have a: "chat_id (cs ! i) = chat_id c" using i i' by simp
    have "map chat_participants cs' ! i = map chat_participants cs ! i" by (simp only: ps)
    then have b: "chat_participants (cs ! i) = chat_participants c" using i i' by simp
    have "cs ! i \<in> set cs" using i' by simp
    with a b show ?thesis by blast
  qed
  show ?thesis
  proof (rule chats_okI)
    have "map chat_id cs' = [0..<length cs]" using chats_ok_ids[OF ok] by (simp only: ids)
    then show "map chat_id cs' = [0..<length cs']" by (simp only: len)
  next
    fix c assume "c \<in> set cs'"
    from key[OF this] obtain c0 where "c0 \<in> set cs" "chat_participants c0 = chat_participants c"
      by blast
    with chats_ok_two[OF ok, of c0] show "length (chat_participants c) = 2" by simp
  next
    fix c1 c2 assume "c1 \<in> set cs'" "c2 \<in> set cs'"
      and eq: "set (chat_participants c1) = set (chat_participants c2)"
    then obtain d1 d2 where d: "d1 \<in> set cs" "chat_id d1 = chat_id c1"
        "chat_participants d1 = chat_participants c1"
        "d2 \<in> set cs" "chat_id d2 = chat_id c2" "chat_participants d2 = chat_participants c2"
      using key[of c1] key[of c2] by auto
    from chats_ok_pair[OF ok d(1,4)] d eq show "chat_id c1 = chat_id c2" by simp
  qed
qed

lemma findChatById_id: "findChatById i cs = Some c \<Longrightarrow> chat_id c = i"
  by (auto simp: findChatById_def find_Some_iff)

lemma findChatById_mem: "findChatById i cs = Some c \<Longrightarrow> c \<in> set cs"
  by (auto simp: findChatById_def find_Some_iff)

lemma map_chat_id_update_chat: "map chat_id (update_chat c cs) = map chat_id cs"
  by (induction cs) (auto simp: update_chat_def)

lemma map_participants_update_chat:
  assumes "distinct (map chat_id cs)" "c \<in> set cs" "chat_id c' = chat_id c"
    "chat_participants c' = chat_participants c"
  shows "map chat_participants (update_chat c' cs) = map chat_participants cs"
proof -
  have "q = c" if "q \<in> set cs" "chat_id q = chat_id c" for q
    using assms(1,2) that by (meson distinct_map inj_onD)
  then show ?thesis using assms(3,4) by (auto simp: update_chat_def)
qed

lemma chats_ok_update_chat:
  assumes "chats_ok cs" "findChatById i cs = Some c" "chat_id c' = chat_id c"
    "chat_participants c' = chat_participants c"
  shows "chats_ok (update_chat c' cs)"
proof (rule chats_ok_same_keys[OF assms(1)])
  show "map chat_id (update_chat c' cs) = map chat_id cs"
    by (rule map_chat_id_update_chat)
  show "map chat_participants (update_chat c' cs) = map chat_participants cs"
    using assms by (intro map_participants_update_chat[of cs c]) 
      (auto dest: findChatById_mem chats_ok_distinct)
qed

lemma chats_ok_find_or_create:
  assumes ok: "chats_ok cs" and r: "find_or_create ue a b rp t0 cs = Inr (c, cs')"
  shows "chats_ok cs'"
proof (cases "find (\<lambda>c. a \<in> set (chat_participants c) \<and> b \<in> set (chat_participants c)) cs")
  case (Some c0)
  with r have "cs' = cs" by (auto simp: find_or_create_def split: if_splits)
  with ok show ?thesis by simp
next
  case None
  with r have cs': "cs' = cs @ [new_chat (length cs) a b rp t0]"
    by (auto simp: find_or_create_def Let_def split: if_splits)
  from None have no: "\<And>q. q \<in> set cs \<Longrightarrow>
      \<not> (a \<in> set (chat_participants q) \<and> b \<in> set (chat_participants q))"
    by (auto simp: find_None_iff)
  have new: "chat_participants (new_chat (length cs) a b rp t0) = [a, b]"
    "chat_id (new_chat (length cs) a b rp t0) = length cs"
    by (simp_all add: new_chat_def)
  show ?thesis
    unfolding cs'
  proof (rule chats_okI)
    show "map chat_id (cs @ [new_chat (length cs) a b rp t0]) =
          [0..<length (cs @ [new_chat (length cs) a b rp t0])]"
      using chats_ok_ids[OF ok] by (simp add: new)
  next
    fix q assume "q \<in> set (cs @ [new_chat (length cs) a b rp t0])"
    then show "length (chat_participants q) = 2" using chats_ok_two[OF ok] by (auto simp: new)
  next
    fix c1 c2
    assume m: "c1 \<in> set (cs @ [new_chat (length cs) a b rp t0])"
      "c2 \<in> set (cs @ [new_chat (length cs) a b rp t0])"
      and eq: "set (chat_participants c1) = set (chat_participants c2)"
    consider "c1 \<in> set cs" "c2 \<in> set cs"
      | "c1 \<in> set cs" "c2 = new_chat (length cs) a b rp t0"
      | "c1 = new_chat (length cs) a b rp t0" "c2 \<in> set cs"
      | "c1 = new_chat (length cs) a b rp t0" "c2 = new_chat (length cs) a b rp t0"
      using m by auto
    then show "chat_id c1 = chat_id c2"
    proof cases
      case 1
      from chats_ok_pair[OF ok 1 eq] show ?thesis .
    next
      case 2
      with eq new have "set (chat_participants c1) = {a, b}" by simp
      then have "a \<in> set (chat_participants c1) \<and> b \<in> set (chat_participants c1)" by simp
      with no[OF 2(1)] show ?thesis by blast
    next
      case 3
      with eq new have "set (chat_participants c2) = {a, b}" by simp
      then have "a \<in> set (chat_participants c2) \<and> b \<in> set (chat_participants c2)" by simp
      with no[OF 3(2)] show ?thesis by blast
    next
      case 4
      then show ?thesis by simp
    qed
  qed
qed

lemma chats_ok_send_message:
  assumes ok: "chats_ok cs" and r: "send_message i uid raw t1 t2 cs = Inr (m, cs')"
  shows "chats_ok cs'"
proof -
  from r obtain c where c: "findChatById i cs = Some c"
    and cs': "cs' = update_chat (c\<lparr>messages := messages c @ [new_message uid (trim raw) t1],
                                   lastMessage := t2\<rparr>) cs"
    by (auto simp: send_message_def Let_def split: if_splits option.splits)
  show ?thesis unfolding cs' by (rule chats_ok_update_chat[OF ok c]) simp_all
qed

lemma chats_ok_mark_read:
  assumes ok: "chats_ok cs" and r: "mark_read i uid cs = Inr cs'"
  shows "chats_ok cs'"
proof -
  from r obtain c where c: "findChatById i cs = Some c"
    and cs': "cs' = update_chat (c\<lparr>messages := map (\<lambda>m. if sender m \<noteq> uid then m\<lparr>read := True\<rparr> else m)
                                           (messages c)\<rparr>) cs"
    by (auto simp: mark_read_def split: if_splits option.splits)
  show ?thesis unfolding cs' by (rule chats_ok_update_chat[OF ok c]) simp_all
qed

lemma chats_ok_apply_chat_op: "chats_ok cs \<Longrightarrow> chats_ok (apply_chat_op ue cs op)"
proof (cases op)
  case (FindOrCreate a b rp t0)
  assume "chats_ok cs"
  then show ?thesis using FindOrCreate chats_ok_find_or_create[of cs ue a b rp t0]
    by (auto split: sum.splits)
next
  case (AppendMessage i uid raw t1 t2)
  assume "chats_ok cs"
  then show ?thesis using AppendMessage chats_ok_send_message[of cs i uid raw t1 t2]
    by (auto split: sum.splits)
next
  case (MarkRead i uid)
  assume "chats_ok cs"
  then show ?thesis using MarkRead chats_ok_mark_read[of cs i uid]
    by (auto split: sum.splits)
qed

lemma chats_ok_foldl: "chats_ok cs \<Longrightarrow> chats_ok (foldl (apply_chat_op ue) cs ops)"
  by (induction ops arbitrary: cs) (simp_all add: chats_ok_apply_chat_op)

lemma chats_ok_run: "chats_ok (run_chat_ops ue ops)"
  unfolding run_chat_ops_def by (rule chats_ok_foldl) (simp add: chats_ok_def)

lemma find_or_create_again:
  assumes "ue a" "ue b"
    and r: "find_or_create ue a b rp t0 cs = Inr (c, cs1)"
  shows "find_or_create ue a b rp' t' cs1 = Inr (c, cs1)"
    and "find_or_create ue b a rp' t' cs1 = Inr (c, cs1)"
    and "c \<in> set cs1" and "a \<in> set (chat_participants c)" and "b \<in> set (chat_participants c)"
proof -
  let ?P = "\<lambda>c. a \<in> set (chat_participants c) \<and> b \<in> set (chat_participants c)"
  have sym: "(\<lambda>c. b \<in> set (chat_participants c) \<and> a \<in> set (chat_participants c)) = ?P"
    by auto
  have f: "find ?P cs1 = Some c"
  proof (cases "find ?P cs")
    case (Some c0)
    with r show ?thesis by (auto simp: find_or_create_def split: if_splits)
  next
    case None
    with r show ?thesis
      by (auto simp: find_or_create_def Let_def find_append_list new_chat_def split: if_splits)
  qed
  show "find_or_create ue a b rp' t' cs1 = Inr (c, cs1)"
    using assms(1,2) f by (simp add: find_or_create_def)
  show "find_or_create ue b a rp' t' cs1 = Inr (c, cs1)"
    using assms(1,2) f by (simp add: find_or_create_def sym)
  from f show "c \<in> set cs1" "a \<in> set (chat_participants c)" "b \<in> set (chat_participants c)"
    by (auto simp: find_Some_iff)
qed

lemma two_entries_set:
  assumes "length ps = 2" "a \<in> set ps" "b \<in> set ps" "a \<noteq> b"
  shows "set ps = {a, b}"
proof -
  from assms(1) obtain x y where "ps = [x, y]"
    by (cases ps; cases "tl ps") auto
  with assms(2-4) show ?thesis by auto
qed

text \<open>
  Claim C5, as the code has it. Take any chat collection reached from the empty one by
  find-or-create, send-message and mark-read requests, and two existing users A and B.
  FindOrCreate(A,B) answers with a conversation containing both; a repetition in either
  argument order answers with the same conversation and leaves the collection as it is,
  so every further repetition does too. In the resulting collection identifiers are
  unique, no two conversations have the same set of participants, and every conversation
  has exactly two participant entries; for two different users the participants of the
  conversation returned are exactly the two user-ids A and B.
\<close>

theorem find_or_create_same_conversation:
  assumes "user_exists A" "user_exists B"
  shows "\<exists>c cs1.
     find_or_create user_exists A B rp t (run_chat_ops user_exists ops) = Inr (c, cs1) \<and>
     find_or_create user_exists B A rp' t' cs1 = Inr (c, cs1) \<and>
     find_or_create user_exists A B rp' t' cs1 = Inr (c, cs1) \<and>
     c \<in> set cs1 \<and> A \<in> set (chat_participants c) \<and> B \<in> set (chat_participants c) \<and>
     distinct (map chat_id cs1) \<and>
     (\<forall>c1\<in>set cs1. \<forall>c2\<in>set cs1.
        set (chat_participants c1) = set (chat_participants c2) \<longrightarrow> chat_id c1 = chat_id c2) \<and>
     (\<forall>q\<in>set cs1. length (chat_participants q) = 2) \<and>
     (A \<noteq> B \<longrightarrow> set (chat_participants c) = {A, B} \<and> card (set (chat_participants c)) = 2)"
proof -
  let ?cs = "run_chat_ops user_exists ops"
  obtain c cs1 where r: "find_or_create user_exists A B rp t ?cs = Inr (c, cs1)"
  proof (cases "find (\<lambda>c. A \<in> set (chat_participants c) \<and> B \<in> set (chat_participants c)) ?cs")
    case None
    with assms(2) that show ?thesis by (simp add: find_or_create_def Let_def)
  next
    case (Some c0)
    with assms(2) that show ?thesis by (simp add: find_or_create_def)
  qed
  have ok: "chats_ok cs1" by (rule chats_ok_find_or_create[OF chats_ok_run r])
  note again = find_or_create_again[OF assms r]
  have d: "distinct (map chat_id cs1)" by (rule chats_ok_distinct[OF ok])
  have u: "\<forall>c1\<in>set cs1. \<forall>c2\<in>set cs1.
        set (chat_participants c1) = set (chat_participants c2) \<longrightarrow> chat_id c1 = chat_id c2"
    using chats_ok_pair[OF ok] by blast
  have two: "\<forall>q\<in>set cs1. length (chat_participants q) = 2"
    using chats_ok_two[OF ok] by blast
  have pair: "A \<noteq> B \<longrightarrow> set (chat_participants c) = {A, B} \<and> card (set (chat_participants c)) = 2"
  proof
    assume ne: "A \<noteq> B"
    have "length (chat_participants c) = 2" by (rule chats_ok_two[OF ok again(3)])
    from two_entries_set[OF this again(4,5) ne]
    show "set (chat_participants c) = {A, B} \<and> card (set (chat_participants c)) = 2"
      using ne by simp
  qed
  show ?thesis
    by (intro exI[of _ c] exI[of _ cs1] conjI r again d u two pair)
qed

theorem find_or_create_same_conversation_witness:
  "example_users 3 \<and> example_users 2 \<and>
   find_or_create example_users 3 2 None 200 (run_chat_ops example_users example_chat_ops) =
     Inr (example_chat (example_messages False False) 121, example_chats) \<and>
   find_or_create example_users 2 3 (Some 5) 300 example_chats =
     Inr (example_chat (example_messages False False) 121, example_chats) \<and>
   find_or_create example_users 3 2 (Some 5) 300 example_chats =
     Inr (example_chat (example_messages False False) 121, example_chats) \<and>
   map chat_participants example_chats = [[2, 3], [4, 2]] \<and>
   set (chat_participants (example_chat (example_messages False False) 121)) = {3, 2}"
proof -
  have u: "example_users 3" "example_users 2" by (simp_all add: example_users_def)
  have r: "find_or_create example_users 3 2 None 200 (run_chat_ops example_users example_chat_ops) =
     Inr (example_chat (example_messages False False) 121, example_chats)"
    by (simp add: run_chat_example find_or_create_def u example_chats_def example_chat_def
        example_chat2_def)
  from find_or_create_same_conversation[OF u, of None 200 example_chat_ops "Some 5" 300] r u
  show ?thesis
    by (auto simp: example_chats_def example_chat_def example_chat2_def)
qed

text \<open>
  The claim as written fails where it says that every conversation's participants are
  exactly two user-ids: user 2 opening a conversation with themselves on the empty
  collection gets a stored conversation whose two participant entries are the one
  user-id 2.
\<close>

theorem self_conversation_counterexample:
  "example_users 2 \<and>
   run_chat_ops example_users [FindOrCreate 2 2 None 100] = [example_self_chat] \<and>
   find_or_create example_users 2 2 None 100 [] = Inr (example_self_chat, [example_self_chat]) \<and>
   chat_participants example_self_chat = [2, 2] \<and>
   card (set (chat_participants example_self_chat)) = 1"
  by (simp add: example_users_def run_chat_ops_def find_or_create_def new_chat_def
      example_self_chat_def Let_def)

section \<open>Messages and read flags\<close>

lemma findChatById_update_chat:
  "findChatById i cs = Some c \<Longrightarrow> chat_id c' = i \<Longrightarrow> findChatById i (update_chat c' cs) = Some c'"
  by (induction cs) (auto simp: findChatById_def update_chat_def)

lemma findChatById_update_chat_other:
  "j \<noteq> chat_id c' \<Longrightarrow> findChatById j (update_chat c' cs) = findChatById j cs"
  by (induction cs) (auto simp: findChatById_def update_chat_def)

lemma update_chat_idem: "update_chat c (update_chat c cs) = update_chat c cs"
  by (induction cs) (auto simp: update_chat_def)

text \<open>
  Claim C6, as the code has it. After every successful AppendMessage the chat has one more
  message, the last one: its sender is the caller, its content the trimmed text, its
  timestamp the server's clock reading \<open>t1\<close>, and it is unread; that message is returned
  to the caller. The chat's \<^verbatim>\<open>lastMessage\<close> (lastActivity) is set to a second clock
  reading \<open>t2\<close>, taken after \<open>t1\<close>: it equals the timestamp of the most recent message
  exactly when the two readings agree.
\<close>

theorem send_message_result:
  assumes r: "send_message chatId uid raw t1 t2 cs = Inr (sent, cs')"
  shows "\<exists>c c'. findChatById chatId cs = Some c \<and> uid \<in> set (chat_participants c) \<and>
           findChatById chatId cs' = Some c' \<and>
           c' = c\<lparr>messages := messages c @ [\<lparr>sender = uid, content = trim raw, timestamp = t1,
                                                read = False\<rparr>],
                   lastMessage := t2\<rparr> \<and>
           sent = Some \<lparr>sender = uid, content = trim raw, timestamp = t1, read = False\<rparr> \<and>
           sent = Some (last (messages c')) \<and>
           lastMessage c' = t2 \<and> timestamp (last (messages c')) = t1 \<and>
           (lastMessage c' = timestamp (last (messages c')) \<longleftrightarrow> t2 = t1)"
proof -
  define m where "m = \<lparr>sender = uid, content = trim raw, timestamp = t1, read = False\<rparr>"
  from r obtain c where c: "findChatById chatId cs = Some c"
    and mem: "uid \<in> set (chat_participants c)"
    and cs': "cs' = update_chat (c\<lparr>messages := messages c @ [m], lastMessage := t2\<rparr>) cs"
    by (auto simp: send_message_def Let_def new_message_def m_def split: if_splits option.splits)
  define c' where "c' = c\<lparr>messages := messages c @ [m], lastMessage := t2\<rparr>"
  have id: "chat_id c' = chatId" using c by (auto simp: c'_def dest: findChatById_id)
  have f: "findChatById chatId cs' = Some c'"
    unfolding cs' c'_def[symmetric] using c id by (rule findChatById_update_chat)
  have s: "sent = Some m"
    using r c mem f
    by (auto simp: send_message_def Let_def new_message_def m_def[symmetric] cs' c'_def
        split: if_splits option.splits)
  show ?thesis
    unfolding m_def[symmetric]
    by (intro exI[of _ c] exI[of _ c'] conjI c mem f s) (auto simp: c'_def m_def s)
qed

theorem send_message_result_witness:
  "send_message 0 2 (ascii ''hello'') 110 111 [example_chat [] 100] =
     Inr (Some \<lparr>sender = 2, content = ascii ''hello'', timestamp = 110, read = False\<rparr>,
          [example_chat [\<lparr>sender = 2, content = ascii ''hello'', timestamp = 110, read = False\<rparr>] 111]) \<and>
   findChatById 0 [example_chat [] 100] = Some (example_chat [] 100) \<and>
   findChatById 0 [example_chat [\<lparr>sender = 2, content = ascii ''hello'', timestamp = 110, read = False\<rparr>] 111] =
     Some (example_chat [\<lparr>sender = 2, content = ascii ''hello'', timestamp = 110, read = False\<rparr>] 111)"
proof -
  have r: "send_message 0 2 (ascii ''hello'') 110 111 [example_chat [] 100] =
     Inr (Some \<lparr>sender = 2, content = ascii ''hello'', timestamp = 110, read = False\<rparr>,
          [example_chat [\<lparr>sender = 2, content = ascii ''hello'', timestamp = 110, read = False\<rparr>] 111])"
    by (simp add: send_message_def Let_def isLength_def trim_chat_examples findChatById_def
        update_chat_def new_message_def message_schema_valid_def example_chat_def)
  from send_message_result[OF r] r show ?thesis
    by (auto simp: trim_chat_examples) (simp_all add: findChatById_def example_chat_def)
qed

text \<open>
  The claim as written fails when the clock advances between the two readings: with
  \<open>t1 = 110\<close> and \<open>t2 = 111\<close> the appended message is stamped 110 and the chat's
  \<^verbatim>\<open>lastMessage\<close> is 111.
\<close>

theorem send_message_clock_counterexample:
  "send_message 0 2 (ascii ''hello'') 110 111 [example_chat [] 100] =
     Inr (Some \<lparr>sender = 2, content = ascii ''hello'', timestamp = 110, read = False\<rparr>,
          [example_chat [\<lparr>sender = 2, content = ascii ''hello'', timestamp = 110, read = False\<rparr>] 111]) \<and>
   lastMessage (example_chat [\<lparr>sender = 2, content = ascii ''hello'', timestamp = 110, read = False\<rparr>] 111) \<noteq>
   timestamp (last (messages
     (example_chat [\<lparr>sender = 2, content = ascii ''hello'', timestamp = 110, read = False\<rparr>] 111)))"
  by (simp add: send_message_def Let_def isLength_def trim_chat_examples findChatById_def
        update_chat_def new_message_def message_schema_valid_def example_chat_def)

text \<open>
  Claim C7. For every stored conversation and every participant \<open>uid\<close> of it, MarkRead
  succeeds and changes nothing but read flags: every message whose sender is not \<open>uid\<close>
  becomes read, every message sent by \<open>uid\<close> is left exactly as it was, and no message
  that was read becomes unread. Other conversations are untouched. A second MarkRead right
  after the first returns the very same collection, and the reader's unread count is 0
  after the first call (and so after the second).
\<close>

theorem mark_read_outcome:
  assumes c: "findChatById chatId cs = Some c" and mem: "uid \<in> set (chat_participants c)"
  shows "\<exists>c' cs'. mark_read chatId uid cs = Inr cs' \<and> findChatById chatId cs' = Some c' \<and>
           c' = c\<lparr>messages := messages c'\<rparr> \<and>
           length (messages c') = length (messages c) \<and>
           (\<forall>i<length (messages c).
              (sender (messages c ! i) \<noteq> uid \<longrightarrow>
                 messages c' ! i = (messages c ! i)\<lparr>read := True\<rparr>) \<and>
              (sender (messages c ! i) = uid \<longrightarrow> messages c' ! i = messages c ! i) \<and>
              (read (messages c ! i) \<longrightarrow> read (messages c' ! i))) \<and>
           (\<forall>j. j \<noteq> chatId \<longrightarrow> findChatById j cs' = findChatById j cs) \<and>
           mark_read chatId uid cs' = Inr cs' \<and>
           length (filter (\<lambda>msg. sender msg \<noteq> uid \<and> \<not> read msg) (messages c')) = 0"
proof -
  let ?f = "\<lambda>m. if sender m \<noteq> uid then m\<lparr>read := True\<rparr> else m"
  define c' where "c' = c\<lparr>messages := map ?f (messages c)\<rparr>"
  define cs' where "cs' = update_chat c' cs"
  have id: "chat_id c' = chatId" using c by (auto simp: c'_def dest: findChatById_id)
  have r: "mark_read chatId uid cs = Inr cs'"
    using c mem by (simp add: mark_read_def c'_def cs'_def)
  have f: "findChatById chatId cs' = Some c'"
    unfolding cs'_def using c id by (rule findChatById_update_chat)
  have idem: "map ?f (map ?f ms) = map ?f ms" for ms by (induction ms) auto
  have again: "c'\<lparr>messages := map ?f (messages c')\<rparr> = c'" by (simp add: c'_def idem)
  have r2: "mark_read chatId uid cs' = Inr cs'"
    using f mem by (simp add: mark_read_def again) (simp add: cs'_def update_chat_idem c'_def)
  have oth: "\<forall>j. j \<noteq> chatId \<longrightarrow> findChatById j cs' = findChatById j cs"
    using id by (simp add: cs'_def findChatById_update_chat_other)
  have zero: "length (filter (\<lambda>msg. sender msg \<noteq> uid \<and> \<not> read msg) (messages c')) = 0"
    by (auto simp: c'_def filter_empty_conv)
  show ?thesis
    by (intro exI[of _ c'] exI[of _ cs'] conjI r f r2 oth zero) (auto simp: c'_def)
qed

theorem mark_read_outcome_witness:
  "findChatById 0 example_chats = Some (example_chat (example_messages False False) 121) \<and>
   2 \<in> set (chat_participants (example_chat (example_messages False False) 121)) \<and>
   mark_read 0 2 example_chats = Inr [example_chat (example_messages False True) 121, example_chat2] \<and>
   mark_read 0 2 [example_chat (example_messages False True) 121, example_chat2] =
     Inr [example_chat (example_messages False True) 121, example_chat2]"
proof -
  have c: "findChatById 0 example_chats = Some (example_chat (example_messages False False) 121)"
    by (simp add: findChatById_def example_chats_def example_chat_def)
  have m: "2 \<in> set (chat_participants (example_chat (example_messages False False) 121))"
    by (simp add: example_chat_def)
  have r: "mark_read 0 2 example_chats =
           Inr [example_chat (example_messages False True) 121, example_chat2]"
    by (simp add: mark_read_def findChatById_def example_chats_def example_chat_def
        example_chat2_def example_messages_def update_chat_def)
  from mark_read_outcome[OF c m] r c m show ?thesis by auto
qed

section \<open>Listing conversations\<close>

lemma find_other_two:
  "a \<noteq> b \<Longrightarrow> U \<in> set [a, b] \<Longrightarrow> find (\<lambda>p. p \<noteq> U) [a, b] = Some (if a = U then b else a)"
  by auto

text \<open>
  Claim C8, as the code has it. For every user U and every chat collection,
  ListConversations(U) answers with one entry per conversation that contains U and no
  other entry, ordered by descending
  \<^verbatim>\<open>lastMessage\<close> (lastActivity). The entry of a conversation carries its identifier and
  related post, the counterpart (for participants \<open>[a, b]\<close> with \<open>a \<noteq> b\<close> the one that is
  not U; a conversation of U with themselves has no counterpart and the entry carries
  none), the most recent message, or none when there are no messages, and as unread count
  the number of messages whose sender is not U and whose read flag is false.
\<close>

theorem list_conversations_outcome:
  "\<exists>ds. mset ds = mset (filter (\<lambda>c. U \<in> set (chat_participants c)) cs) \<and>
         sorted_wrt (\<lambda>c1 c2. lastMessage c2 \<le> lastMessage c1) ds \<and>
         length (list_conversations U cs) = length ds \<and>
         (\<forall>i<length ds.
            conv_id (list_conversations U cs ! i) = chat_id (ds ! i) \<and>
            conv_relatedPost (list_conversations U cs ! i) = relatedPost (ds ! i) \<and>
            (\<forall>a b. chat_participants (ds ! i) = [a, b] \<and> a \<noteq> b \<longrightarrow>
               participant (list_conversations U cs ! i) = Some (if a = U then b else a)) \<and>
            (chat_participants (ds ! i) = [U, U] \<longrightarrow>
               participant (list_conversations U cs ! i) = None) \<and>
            conv_lastMessage (list_conversations U cs ! i) =
              (if messages (ds ! i) = [] then None else Some (last (messages (ds ! i)))) \<and>
            unreadCount (list_conversations U cs ! i) =
              card {k. k < length (messages (ds ! i)) \<and> sender (messages (ds ! i) ! k) \<noteq> U \<and>
                       \<not> read (messages (ds ! i) ! k)})"
proof -
  define ds where
    "ds = sort_key (\<lambda>c. - lastMessage c) (filter (\<lambda>c. U \<in> set (chat_participants c)) cs)"
  have lc: "list_conversations U cs = map (format_conversation U) ds"
    by (simp add: list_conversations_def ds_def)
  have m: "mset ds = mset (filter (\<lambda>c. U \<in> set (chat_participants c)) cs)"
    by (simp add: ds_def)
  have "sorted (map (\<lambda>c. - lastMessage c) ds)" unfolding ds_def by (rule sorted_sort_key)
  then have s: "sorted_wrt (\<lambda>c1 c2. lastMessage c2 \<le> lastMessage c1) ds"
    by (simp add: sorted_map)
  have mem: "U \<in> set (chat_participants c)" if "c \<in> set ds" for c
    using that by (simp add: ds_def)
  have e: "conv_id (format_conversation U c) = chat_id c \<and>
           conv_relatedPost (format_conversation U c) = relatedPost c \<and>
           (\<forall>a b. chat_participants c = [a, b] \<and> a \<noteq> b \<longrightarrow>
               participant (format_conversation U c) = Some (if a = U then b else a)) \<and>
           (chat_participants c = [U, U] \<longrightarrow> participant (format_conversation U c) = None) \<and>
           conv_lastMessage (format_conversation U c) =
              (if messages c = [] then None else Some (last (messages c))) \<and>
           unreadCount (format_conversation U c) =
              card {k. k < length (messages c) \<and> sender (messages c ! k) \<noteq> U \<and>
                       \<not> read (messages c ! k)}"
    if "c \<in> set ds" for c
  proof (intro conjI allI impI)
    fix a b assume ab: "chat_participants c = [a, b] \<and> a \<noteq> b"
    with mem[OF that] have "U \<in> set [a, b]" by simp
    with ab show "participant (format_conversation U c) = Some (if a = U then b else a)"
      by (simp add: format_conversation_def find_other_two del: set_simps)
  next
    show "unreadCount (format_conversation U c) =
              card {k. k < length (messages c) \<and> sender (messages c ! k) \<noteq> U \<and>
                       \<not> read (messages c ! k)}"
      by (simp add: format_conversation_def length_filter_conv_card)
  next
    show "conv_lastMessage (format_conversation U c) =
              (if messages c = [] then None else Some (last (messages c)))"
      by (simp add: format_conversation_def last_conv_nth)
  qed (simp_all add: format_conversation_def)
  show ?thesis
  proof (rule exI[of _ ds], intro conjI)
    show "mset ds = mset (filter (\<lambda>c. U \<in> set (chat_participants c)) cs)" by (rule m)
  next
    show "sorted_wrt (\<lambda>c1 c2. lastMessage c2 \<le> lastMessage c1) ds" by (rule s)
  next
    show "length (list_conversations U cs) = length ds" by (simp add: lc)
  next
    show "\<forall>i<length ds.
            conv_id (list_conversations U cs ! i) = chat_id (ds ! i) \<and>
            conv_relatedPost (list_conversations U cs ! i) = relatedPost (ds ! i) \<and>
            (\<forall>a b. chat_participants (ds ! i) = [a, b] \<and> a \<noteq> b \<longrightarrow>
               participant (list_conversations U cs ! i) = Some (if a = U then b else a)) \<and>
            (chat_participants (ds ! i) = [U, U] \<longrightarrow>
               participant (list_conversations U cs ! i) = None) \<and>
            conv_lastMessage (list_conversations U cs ! i) =
              (if messages (ds ! i) = [] then None else Some (last (messages (ds ! i)))) \<and>
            unreadCount (list_conversations U cs ! i) =
              card {k. k < length (messages (ds ! i)) \<and> sender (messages (ds ! i) ! k) \<noteq> U \<and>
                       \<not> read (messages (ds ! i) ! k)}"
    proof (intro allI impI)
    fix i assume "i < length ds"
    then have "ds ! i \<in> set ds" "list_conversations U cs ! i = format_conversation U (ds ! i)"
      by (simp_all add: lc)
    with e[of "ds ! i"] show "conv_id (list_conversations U cs ! i) = chat_id (ds ! i) \<and>
            conv_relatedPost (list_conversations U cs ! i) = relatedPost (ds ! i) \<and>
            (\<forall>a b. chat_participants (ds ! i) = [a, b] \<and> a \<noteq> b \<longrightarrow>
               participant (list_conversations U cs ! i) = Some (if a = U then b else a)) \<and>
            (chat_participants (ds ! i) = [U, U] \<longrightarrow>
               participant (list_conversations U cs ! i) = None) \<and>
            conv_lastMessage (list_conversations U cs ! i) =
              (if messages (ds ! i) = [] then None else Some (last (messages (ds ! i)))) \<and>
            unreadCount (list_conversations U cs ! i) =
              card {k. k < length (messages (ds ! i)) \<and> sender (messages (ds ! i) ! k) \<noteq> U \<and>
                       \<not> read (messages (ds ! i) ! k)}"
      by simp
    qed
  qed
qed

lemma list_conversations_example:
  "list_conversations 2 [example_chat2, example_chat (example_messages False False) 121] =
     [\<lparr>conv_id = 0, participant = Some 3, conv_relatedPost = Some 0,
       conv_lastMessage = Some \<lparr>sender = 3, content = ascii ''hi'', timestamp = 120, read = False\<rparr>,
       unreadCount = 1\<rparr>,
      \<lparr>conv_id = 1, participant = Some 4, conv_relatedPost = None, conv_lastMessage = None,
       unreadCount = 0\<rparr>]"
  by (simp add: list_conversations_def format_conversation_def example_chat_def
      example_chat2_def example_messages_def)

theorem list_conversations_outcome_witness:
  "list_conversations 2 [example_chat2, example_chat (example_messages False False) 121] =
     [\<lparr>conv_id = 0, participant = Some 3, conv_relatedPost = Some 0,
       conv_lastMessage = Some \<lparr>sender = 3, content = ascii ''hi'', timestamp = 120, read = False\<rparr>,
       unreadCount = 1\<rparr>,
      \<lparr>conv_id = 1, participant = Some 4, conv_relatedPost = None, conv_lastMessage = None,
       unreadCount = 0\<rparr>] \<and>
   length (list_conversations 2 [example_chat2, example_chat (example_messages False False) 121]) =
     size (mset (filter (\<lambda>c. 2 \<in> set (chat_participants c))
              [example_chat2, example_chat (example_messages False False) 121]))"
proof -
  from list_conversations_outcome[of 2 "[example_chat2, example_chat (example_messages False False) 121]"]
  obtain ds where "mset ds = mset (filter (\<lambda>c. 2 \<in> set (chat_participants c))
              [example_chat2, example_chat (example_messages False False) 121])"
    and "length (list_conversations 2 [example_chat2, example_chat (example_messages False False) 121]) =
         length ds"
    by blast
  then have "length (list_conversations 2 [example_chat2, example_chat (example_messages False False) 121]) =
     size (mset (filter (\<lambda>c. 2 \<in> set (chat_participants c))
              [example_chat2, example_chat (example_messages False False) 121]))"
    by (metis size_mset)
  with list_conversations_example show ?thesis by simp
qed

text \<open>
  The claim as written fails where it says that each entry carries the counterpart: the
  conversation user 2 gets by opening one with themselves contains user 2, and its entry
  in the list of user 2 carries no participant.
\<close>

theorem self_conversation_entry_counterexample:
  "find_or_create example_users 2 2 None 100 [] = Inr (example_self_chat, [example_self_chat]) \<and>
   2 \<in> set (chat_participants example_self_chat) \<and>
   list_conversations 2 [example_self_chat] =
     [\<lparr>conv_id = 0, participant = None, conv_relatedPost = None, conv_lastMessage = None,
       unreadCount = 0\<rparr>]"
  by (simp add: example_users_def find_or_create_def new_chat_def example_self_chat_def Let_def
      list_conversations_def format_conversation_def)

section \<open>Presence registry\<close>

text \<open>
  Claim C9, as the code has it. A \<^verbatim>\<open>join\<close> event of a socket for a user stores that
  socket's identifier for the user, whatever was stored before, and leaves every other
  user's entry alone. A disconnect of a socket removes the entry of the user the socket
  last registered (when that identifier is not empty), whatever socket is stored for that
  user at the time; a socket that never registered removes nothing.
\<close>

theorem presence_register_disconnect:
  "snd (on_join userId sock activeUsers) userId = Some (socket_id sock) \<and>
   socket_userId (fst (on_join userId sock activeUsers)) = Some userId \<and>
   socket_id (fst (on_join userId sock activeUsers)) = socket_id sock \<and>
   (\<forall>v. v \<noteq> userId \<longrightarrow> snd (on_join userId sock activeUsers) v = activeUsers v) \<and>
   (\<forall>u. socket_userId sock = Some u \<and> u \<noteq> [] \<longrightarrow>
      on_disconnect sock activeUsers = activeUsers(u := None)) \<and>
   (socket_userId sock = None \<or> socket_userId sock = Some [] \<longrightarrow>
      on_disconnect sock activeUsers = activeUsers)"
  by (auto simp: on_join_def on_disconnect_def)

theorem presence_register_disconnect_witness:
  "snd (on_join ''u1'' socket_a Map.empty) ''u1'' = Some ''socket-a'' \<and>
   snd (on_join ''u1'' socket_b (snd (on_join ''u1'' socket_a Map.empty))) ''u1'' = Some ''socket-b'' \<and>
   socket_userId (fst (on_join ''u1'' socket_a Map.empty)) = Some ''u1'' \<and>
   ''u1'' \<noteq> [] \<and>
   on_disconnect (fst (on_join ''u1'' socket_a Map.empty)) [''u1'' \<mapsto> ''socket-a''] = Map.empty \<and>
   socket_userId socket_b = None \<and>
   on_disconnect socket_b [''u1'' \<mapsto> ''socket-a''] = [''u1'' \<mapsto> ''socket-a'']"
  using presence_register_disconnect[of "''u1''" socket_a Map.empty]
    presence_register_disconnect[of "''u1''" socket_b "snd (on_join ''u1'' socket_a Map.empty)"]
    presence_register_disconnect[of "''u1''" "fst (on_join ''u1'' socket_a Map.empty)" "[''u1'' \<mapsto> ''socket-a'']"]
    presence_register_disconnect[of "''u2''" socket_b "[''u1'' \<mapsto> ''socket-a'']"]
  by (simp add: socket_a_def socket_b_def)

text \<open>
  The claim as written fails for a superseded socket: user \<open>u1\<close> registers on socket a
  and then on socket b, so that socket b is stored; the disconnect of socket a removes the
  entry although the stored socket is not socket a.
\<close>

theorem disconnect_superseded_counterexample:
  "snd (on_join ''u1'' socket_b (snd (on_join ''u1'' socket_a Map.empty))) ''u1'' = Some ''socket-b'' \<and>
   socket_id (fst (on_join ''u1'' socket_a Map.empty)) = ''socket-a'' \<and>
   on_disconnect (fst (on_join ''u1'' socket_a Map.empty))
     (snd (on_join ''u1'' socket_b (snd (on_join ''u1'' socket_a Map.empty)))) ''u1'' = None"
  by (simp add: on_join_def on_disconnect_def socket_a_def socket_b_def)

end
